theory Spec2Isabelle
  imports Main "HOL-Library.Sublist"
begin

section \<open>Python values and exceptions\<close>

text \<open>
  The exceptions the modelled code raises. The text of a \<open>ValueError\<close> or
  \<open>TypeError\<close> is kept, since the hostfile parser and \<open>export\<close> are specified
  by their messages. \<open>gaierror\<close> is what \<open>socket.gethostbyname\<close> raises for a name
  that does not resolve.
\<close>

datatype error =
    ValueError string
  | TypeError string
  | FileExistsError
  | NotADirectoryError
  | FileNotFoundError
  | IsADirectoryError
  | NotImplementedError
  | IndexError
  | gaierror string

text \<open>
  The \<open>slots\<close> list of the hostfile parser holds the integer \<open>0\<close> for some lines
  and a piece of the line (a \<open>str\<close>) for others, so its elements are Python values.
\<close>

datatype pyval = PyInt int | PyStr string

section \<open>String operations of the Python library\<close>

text \<open>
  \<open>str.isspace\<close> on the characters a \<open>char\<close> can hold (code points below 256):
  tab, line feed, vertical tab, form feed, carriage return, the separators
  \<open>0x1c\<close> to \<open>0x1f\<close>, space, \<open>0x85\<close> and \<open>0xa0\<close>.
\<close>

definition isspace :: "char \<Rightarrow> bool" where
  "isspace c = ((of_char c :: nat) \<in> {9, 10, 11, 12, 13, 28, 29, 30, 31, 32, 133, 160})"

text \<open>\<open>line.rstrip()\<close>: trailing whitespace removed.\<close>

definition rstrip :: "string \<Rightarrow> string" where
  "rstrip s = rev (dropWhile isspace (rev s))"

text \<open>
  \<open>s.split(sep)\<close> for a non-empty separator: the pieces between the occurrences of
  \<open>sep\<close>, scanned from the left. \<open>acc\<close> is the current piece, reversed.
\<close>

function split_from :: "string \<Rightarrow> string \<Rightarrow> string \<Rightarrow> string list" where
  "split_from sep acc [] = [rev acc]"
| "split_from sep acc (c # cs) =
     (if sep \<noteq> [] \<and> take (length sep) (c # cs) = sep
      then rev acc # split_from sep [] (drop (length sep) (c # cs))
      else split_from sep (c # acc) cs)"
  by pat_completeness auto
termination
  by (relation "measure (\<lambda>(sep, acc, s). length s)") auto

definition split :: "string \<Rightarrow> string \<Rightarrow> string list" where
  "split s sep = split_from sep [] s"

text \<open>\<open>xs[i]\<close> for \<open>i \<ge> 0\<close>; out of range raises \<open>IndexError\<close>.\<close>

definition index :: "'a list \<Rightarrow> nat \<Rightarrow> error + 'a" where
  "index xs i = (if i < length xs then Inr (xs ! i) else Inl IndexError)"

section \<open>Regular expressions\<close>

text \<open>
  The patterns of \<open>_parse_hostfile\<close> use character classes, concatenation,
  alternation, \<open>?\<close>, \<open>*\<close> and bounded repetition, between \<open>^\<close> and \<open>$\<close>. A class is
  given by the list of its characters. \<open>Void\<close> matches nothing; it only arises while
  matching.
\<close>

datatype regex =
    Void
  | Eps
  | Cls "char list"
  | Cat regex regex
  | Alt regex regex
  | Star regex

fun nullable :: "regex \<Rightarrow> bool" where
  "nullable Void = False"
| "nullable Eps = True"
| "nullable (Cls cs) = False"
| "nullable (Cat r s) = (nullable r \<and> nullable s)"
| "nullable (Alt r s) = (nullable r \<or> nullable s)"
| "nullable (Star r) = True"

fun cat :: "regex \<Rightarrow> regex \<Rightarrow> regex" where
  "cat Void s = Void"
| "cat Eps s = s"
| "cat r s = Cat r s"

fun alt :: "regex \<Rightarrow> regex \<Rightarrow> regex" where
  "alt Void s = s"
| "alt r Void = r"
| "alt r s = Alt r s"

text \<open>What is left of \<open>r\<close> after reading the character \<open>c\<close>.\<close>

fun deriv :: "char \<Rightarrow> regex \<Rightarrow> regex" where
  "deriv c Void = Void"
| "deriv c Eps = Void"
| "deriv c (Cls cs) = (if c \<in> set cs then Eps else Void)"
| "deriv c (Cat r s) =
     (if nullable r then alt (cat (deriv c r) s) (deriv c s) else cat (deriv c r) s)"
| "deriv c (Alt r s) = alt (deriv c r) (deriv c s)"
| "deriv c (Star r) = cat (deriv c r) (Star r)"

fun derivs :: "regex \<Rightarrow> string \<Rightarrow> regex" where
  "derivs r [] = r"
| "derivs r (c # cs) = derivs (deriv c r) cs"

text \<open>The whole of \<open>s\<close> matches \<open>r\<close>.\<close>

definition fullmatch :: "regex \<Rightarrow> string \<Rightarrow> bool" where
  "fullmatch r s = nullable (derivs r s)"

text \<open>
  \<open>re.match("^r$", s)\<close>: \<open>$\<close> matches at the end of the string and also just before a
  line feed that ends the string.
\<close>

definition re_match :: "regex \<Rightarrow> string \<Rightarrow> bool" where
  "re_match r s =
     (fullmatch r s \<or> (s \<noteq> [] \<and> last s = CHR 0x0A \<and> fullmatch r (butlast s)))"

definition lit :: "string \<Rightarrow> regex" where
  "lit s = foldr (\<lambda>c r. Cat (Cls [c]) r) s Eps"

definition opt :: "regex \<Rightarrow> regex" where
  "opt r = Alt r Eps"

section \<open>The hostfile patterns\<close>

definition digit :: regex where
  "digit = Cls ''0123456789''"

definition alnum :: regex where
  "alnum = Cls ''abcdefghijklmnopqrstuvwxyzABCDEFGHIJKLMNOPQRSTUVWXYZ0123456789''"

definition alnum_dash :: regex where
  "alnum_dash = Cls ''abcdefghijklmnopqrstuvwxyzABCDEFGHIJKLMNOPQRSTUVWXYZ0123456789-''"

text \<open>\<open>(25[0-5]|2[0-4][0-9]|1[0-9][0-9]|[1-9]?[0-9])\<close>\<close>

definition octet :: regex where
  "octet =
     Alt (Cat (lit ''25'') (Cls ''012345''))
    (Alt (Cat (lit ''2'') (Cat (Cls ''01234'') digit))
    (Alt (Cat (lit ''1'') (Cat digit digit))
         (Cat (opt (Cls ''123456789'')) digit)))"

text \<open>\<open>(octet\.){3}octet\<close>\<close>

definition ip_re :: regex where
  "ip_re =
     Cat (Cat (Cat octet (lit ''.'')) (Cat (Cat octet (lit ''.'')) (Cat octet (lit ''.''))))
         octet"

text \<open>\<open>([a-zA-Z0-9]|[a-zA-Z0-9][a-zA-Z0-9\-]*[a-zA-Z0-9])\<close>\<close>

definition label :: regex where
  "label = Alt alnum (Cat alnum (Cat (Star alnum_dash) alnum))"

text \<open>\<open>(label\.)*label\<close>\<close>

definition hostname_re :: regex where
  "hostname_re = Cat (Star (Cat label (lit ''.''))) label"

text \<open>\<open> slots=[0-9]{1,2}\<close>\<close>

definition slots_re :: regex where
  "slots_re = Cat (lit '' slots='') (Cat digit (opt digit))"

text \<open>
  \<open>:\d{1,2}\<close>. On the characters a \<open>char\<close> can hold, \<open>\d\<close> is \<open>[0-9]\<close>: no other
  code point below 256 is a decimal digit.
\<close>

definition colon_re :: regex where
  "colon_re = Cat (lit '':'') (Cat digit (opt digit))"

text \<open>The keys of \<open>valid_regexes\<close>, in the order of the dictionary.\<close>

datatype match_key =
    valid_ip
  | valid_ip_with_slot
  | valid_ip_with_colon
  | valid_hostname
  | valid_hostname_with_slot
  | valid_hostname_with_colon

definition valid_regexes :: "(match_key \<times> regex) list" where
  "valid_regexes =
     [(valid_ip, ip_re),
      (valid_ip_with_slot, Cat ip_re slots_re),
      (valid_ip_with_colon, Cat ip_re colon_re),
      (valid_hostname, hostname_re),
      (valid_hostname_with_slot, Cat hostname_re slots_re),
      (valid_hostname_with_colon, Cat hostname_re colon_re)]"

section \<open>\<open>TFModel._parse_hostfile\<close>\<close>

text \<open>
  The inner loop \<open>for k, v in valid_regexes.items()\<close>: the key of the first pattern
  that matches the line, \<open>None\<close> when \<open>found\<close> stays \<open>False\<close>.
\<close>

fun first_match :: "(match_key \<times> regex) list \<Rightarrow> string \<Rightarrow> match_key option" where
  "first_match [] line = None"
| "first_match ((k, v) # kvs) line =
     (if re_match v line then Some k else first_match kvs line)"

text \<open>The first loop: one key per line, or the \<open>ValueError\<close> of the first line without one.\<close>

fun find_matches :: "string list \<Rightarrow> error + match_key list" where
  "find_matches [] = Inr []"
| "find_matches (line # lines) =
     (case first_match valid_regexes line of
        None \<Rightarrow> Inl (ValueError (''Invalid line in the hostfile: '' @ line))
      | Some k \<Rightarrow>
          (case find_matches lines of
             Inl e \<Rightarrow> Inl e
           | Inr ks \<Rightarrow> Inr (k # ks)))"

record hostfile_info =
  ip_addresses :: "string list"
  slots :: "pyval list"

text \<open>
  \<open>socket.gethostbyname\<close> is a parameter: \<open>Inl\<close> is the exception of a name that
  does not resolve.
\<close>

type_synonym resolver = "string \<Rightarrow> error + string"

text \<open>One round of the second loop: the address and the slot value appended for a line.\<close>

fun host_entry :: "resolver \<Rightarrow> string \<Rightarrow> match_key \<Rightarrow> error + (string \<times> pyval)" where
  "host_entry gethostbyname line valid_ip = Inr (line, PyInt 0)"
| "host_entry gethostbyname line valid_ip_with_slot =
     (case index (split line '' slots='') 0 of
        Inl e \<Rightarrow> Inl e
      | Inr a \<Rightarrow>
          (case index (split line '' slots='') 1 of
             Inl e \<Rightarrow> Inl e
           | Inr n \<Rightarrow> Inr (a, PyStr n)))"
| "host_entry gethostbyname line valid_ip_with_colon =
     (case index (split line '':'') 0 of
        Inl e \<Rightarrow> Inl e
      | Inr a \<Rightarrow>
          (case index (split line '':'') 1 of
             Inl e \<Rightarrow> Inl e
           | Inr n \<Rightarrow> Inr (a, PyStr n)))"
| "host_entry gethostbyname line valid_hostname =
     (case gethostbyname line of
        Inl e \<Rightarrow> Inl e
      | Inr a \<Rightarrow> Inr (a, PyInt 0))"
| "host_entry gethostbyname line valid_hostname_with_slot =
     (case index (split line '' slots='') 0 of
        Inl e \<Rightarrow> Inl e
      | Inr h \<Rightarrow>
          (case gethostbyname h of
             Inl e \<Rightarrow> Inl e
           | Inr a \<Rightarrow>
               (case index (split line '' slots='') 1 of
                  Inl e \<Rightarrow> Inl e
                | Inr n \<Rightarrow> Inr (a, PyStr n))))"
| "host_entry gethostbyname line valid_hostname_with_colon =
     (case index (split line '':'') 0 of
        Inl e \<Rightarrow> Inl e
      | Inr h \<Rightarrow>
          (case gethostbyname h of
             Inl e \<Rightarrow> Inl e
           | Inr a \<Rightarrow>
               (case index (split line '':'') 1 of
                  Inl e \<Rightarrow> Inl e
                | Inr n \<Rightarrow> Inr (a, PyStr n))))"

text \<open>The second loop, over \<open>zip(lines, matches)\<close>, appending to both lists.\<close>

fun fill_info ::
  "resolver \<Rightarrow> (string \<times> match_key) list \<Rightarrow> hostfile_info \<Rightarrow> error + hostfile_info" where
  "fill_info gethostbyname [] info = Inr info"
| "fill_info gethostbyname ((line, k) # rest) info =
     (case host_entry gethostbyname line k of
        Inl e \<Rightarrow> Inl e
      | Inr (a, n) \<Rightarrow>
          fill_info gethostbyname rest
            (info\<lparr>ip_addresses := ip_addresses info @ [a], slots := slots info @ [n]\<rparr>))"

text \<open>
  \<open>_parse_hostfile\<close>, given the lines that reading the file yields (each with its
  line end).
\<close>

definition parse_hostfile :: "resolver \<Rightarrow> string list \<Rightarrow> error + hostfile_info" where
  "parse_hostfile gethostbyname raw =
     (let lines = map rstrip raw in
      case find_matches lines of
        Inl e \<Rightarrow> Inl e
      | Inr matches \<Rightarrow>
          fill_info gethostbyname (zip lines matches) \<lparr>ip_addresses = [], slots = []\<rparr>)"

section \<open>The words a pattern matches\<close>

text \<open>
  The set of strings of a pattern, to reason about \<open>fullmatch\<close> on all lines at once.
\<close>

inductive_set lang_star :: "string set \<Rightarrow> string set" for A :: "string set" where
  star_nil: "[] \<in> lang_star A"
| star_app: "u \<in> A \<Longrightarrow> v \<in> lang_star A \<Longrightarrow> u @ v \<in> lang_star A"

definition conc :: "string set \<Rightarrow> string set \<Rightarrow> string set" where
  "conc A B = {u @ v |u v. u \<in> A \<and> v \<in> B}"

fun lang :: "regex \<Rightarrow> string set" where
  "lang Void = {}"
| "lang Eps = {[]}"
| "lang (Cls cs) = {[c] |c. c \<in> set cs}"
| "lang (Cat r s) = conc (lang r) (lang s)"
| "lang (Alt r s) = lang r \<union> lang s"
| "lang (Star r) = lang_star (lang r)"

text \<open>The characters that can occur in a match.\<close>

fun chars :: "regex \<Rightarrow> char set" where
  "chars Void = {}"
| "chars Eps = {}"
| "chars (Cls cs) = set cs"
| "chars (Cat r s) = chars r \<union> chars s"
| "chars (Alt r s) = chars r \<union> chars s"
| "chars (Star r) = chars r"

section \<open>\<open>TFModel.set_auto_mixed_precision\<close>\<close>

text \<open>\<open>s.strip()\<close>, as \<open>int\<close> applies it to its argument.\<close>

definition lstrip :: "string \<Rightarrow> string" where
  "lstrip s = dropWhile isspace s"

definition strip :: "string \<Rightarrow> string" where
  "strip s = lstrip (rstrip s)"

definition isdigit :: "char \<Rightarrow> bool" where
  "isdigit c = (c \<in> set ''0123456789'')"

definition digit_value :: "char \<Rightarrow> nat" where
  "digit_value c = of_char c - 48"

text \<open>
  The digits of an integer literal: decimal digits, with single underscores allowed
  between two digits. \<open>after_digit\<close> tells whether the last character read was a digit.
\<close>

fun digits_value :: "string \<Rightarrow> nat \<Rightarrow> bool \<Rightarrow> nat option" where
  "digits_value [] acc after_digit = (if after_digit then Some acc else None)"
| "digits_value (c # cs) acc after_digit =
     (if isdigit c then digits_value cs (10 * acc + digit_value c) True
      else if c = CHR ''_'' \<and> after_digit then digits_value cs acc False
      else None)"

text \<open>
  \<open>repr(s)\<close> for a string of printable characters without quotes or backslashes: the
  string between single quotes.
\<close>

definition py_repr :: "string \<Rightarrow> string" where
  "py_repr s = [CHR 0x27] @ s @ [CHR 0x27]"

text \<open>\<open>int(s)\<close> for a \<open>str\<close>: white space stripped, an optional sign, the digits.\<close>

definition py_int :: "string \<Rightarrow> error + int" where
  "py_int s =
     (let t = strip s;
          v = (case t of
                 [] \<Rightarrow> None
               | c # cs \<Rightarrow>
                   if c = CHR ''-'' then map_option (\<lambda>n. - int n) (digits_value cs 0 False)
                   else if c = CHR ''+'' then map_option int (digits_value cs 0 False)
                   else map_option int (digits_value t 0 False))
      in case v of
           None \<Rightarrow> Inl (ValueError (''invalid literal for int() with base 10: '' @ py_repr s))
         | Some i \<Rightarrow> Inr i)"

text \<open>
  The first lines of \<open>set_auto_mixed_precision\<close>: the major and minor number of
  \<open>tf.version.VERSION\<close>, which stay \<open>0\<close> when the version is \<open>None\<close> or has no dot.
\<close>

definition tf_version_numbers :: "string option \<Rightarrow> error + (int \<times> int)" where
  "tf_version_numbers VERSION =
     (case VERSION of
        None \<Rightarrow> Inr (0, 0)
      | Some v \<Rightarrow>
          if CHR ''.'' \<in> set v then
            (let tf_version_list = split v ''.'' in
             if length tf_version_list > 1 then
               (case py_int (tf_version_list ! 0) of
                  Inl e \<Rightarrow> Inl e
                | Inr tf_major_version \<Rightarrow>
                    (case py_int (tf_version_list ! 1) of
                       Inl e \<Rightarrow> Inl e
                     | Inr tf_minor_version \<Rightarrow> Inr (tf_major_version, tf_minor_version)))
             else Inr (0, 0))
          else Inr (0, 0))"

definition auto_mixed_precision_supported :: "int \<times> int \<Rightarrow> bool" where
  "auto_mixed_precision_supported v =
     (case v of (tf_major_version, tf_minor_version) \<Rightarrow>
        (tf_major_version = 2 \<and> tf_minor_version \<ge> 9) \<or> tf_major_version > 2)"

text \<open>
  The argument \<open>enable_auto_mixed_precision\<close>: \<open>None\<close>, a \<open>bool\<close>, or a value of
  another type.
\<close>

datatype amp_arg = AmpNone | AmpBool bool | AmpOther

text \<open>
  What a call does besides returning: the lines it prints, and the value it passes to
  \<open>tf.config.optimizer.set_experimental_options\<close> for \<open>auto_mixed_precision_mkl\<close>
  (\<open>None\<close> when it does not call it).
\<close>

record amp_effect =
  printed :: "string list"
  experimental_options :: "bool option"

text \<open>\<open>"{}".format(tf.version.VERSION)\<close>\<close>

definition format_version :: "string option \<Rightarrow> string" where
  "format_version VERSION = (case VERSION of None \<Rightarrow> ''None'' | Some v \<Rightarrow> v)"

text \<open>
  \<open>cpu_type\<close> is the outcome of \<open>PlatformUtil(args=None).cpu_type\<close>: the CPU type, or
  \<open>Inl\<close> the text \<open>str(e)\<close> of the exception it raises.
\<close>

definition set_auto_mixed_precision ::
  "string option \<Rightarrow> (string + string) \<Rightarrow> amp_arg \<Rightarrow> error + amp_effect" where
  "set_auto_mixed_precision VERSION cpu_type enable_auto_mixed_precision =
     (if enable_auto_mixed_precision = AmpOther then
        Inl (TypeError ''Invalid type for enable_auto_mixed_precision. Expected None or a bool.'')
      else
        (case tf_version_numbers VERSION of
           Inl e \<Rightarrow> Inl e
         | Inr v \<Rightarrow>
             (let supported = auto_mixed_precision_supported v;
                  (out, enable) =
                    (case enable_auto_mixed_precision of
                       AmpNone \<Rightarrow>
                         (case cpu_type of
                            Inr t \<Rightarrow> ([], t = ''SPR'')
                          | Inl e \<Rightarrow>
                              (if supported
                               then [''Unable to determine the CPU type: '' @ e]
                               else [],
                               False))
                     | AmpBool b \<Rightarrow>
                         (if \<not> supported
                          then [''Warning: Auto mixed precision requires TensorFlow 2.9.0 or later (found ''
                                 @ format_version VERSION @ '').'']
                          else [],
                          b)
                     | AmpOther \<Rightarrow> ([], False))
              in if supported then
                   Inr \<lparr>printed = out @ (if enable then [''Enabling auto_mixed_precision_mkl''] else []),
                        experimental_options = Some enable\<rparr>
                 else Inr \<lparr>printed = out, experimental_options = None\<rparr>)))"

section \<open>A file system\<close>

text \<open>
  A path is the list of its components, so that \<open>os.path.join(p, c)\<close> for a relative
  single component \<open>c\<close> is \<open>p @ [c]\<close>. A file system maps the paths that exist to a
  node: a regular file, or a directory with the names \<open>os.listdir\<close> returns for it.
\<close>

type_synonym path = "string list"

datatype node = File | Dir "string list"

type_synonym filesystem = "path \<Rightarrow> node option"

text \<open>\<open>os.path.exists\<close>\<close>

definition path_exists :: "filesystem \<Rightarrow> path \<Rightarrow> bool" where
  "path_exists fs p = (fs p \<noteq> None)"

text \<open>\<open>os.listdir\<close>\<close>

definition listdir :: "filesystem \<Rightarrow> path \<Rightarrow> error + string list" where
  "listdir fs p =
     (case fs p of
        None \<Rightarrow> Inl FileNotFoundError
      | Some File \<Rightarrow> Inl NotADirectoryError
      | Some (Dir names) \<Rightarrow> Inr names)"

definition add_entry :: "string \<Rightarrow> string list \<Rightarrow> string list" where
  "add_entry n names = (if n \<in> set names then names else names @ [n])"

text \<open>\<open>os.mkdir\<close>: the parent gets the new name, the path becomes an empty directory.\<close>

definition mkdir :: "filesystem \<Rightarrow> path \<Rightarrow> error + filesystem" where
  "mkdir fs p =
     (if p = [] \<or> fs p \<noteq> None then Inl FileExistsError
      else
        (case fs (butlast p) of
           None \<Rightarrow> Inl FileNotFoundError
         | Some File \<Rightarrow> Inl NotADirectoryError
         | Some (Dir names) \<Rightarrow>
             Inr (fs(butlast p \<mapsto> Dir (add_entry (last p) names), p \<mapsto> Dir []))))"

text \<open>
  \<open>os.makedirs(p, exist_ok=True)\<close>: the missing ancestors first, then the directory
  itself; a directory that exists is left as it is.
\<close>

function makedirs :: "filesystem \<Rightarrow> path \<Rightarrow> error + filesystem" where
  "makedirs fs p =
     (case fs p of
        Some (Dir names) \<Rightarrow> Inr fs
      | Some File \<Rightarrow> Inl FileExistsError
      | None \<Rightarrow>
          if p \<noteq> [] \<and> butlast p \<noteq> [] \<and> fs (butlast p) = None then
            (case makedirs fs (butlast p) of
               Inl e \<Rightarrow> Inl e
             | Inr fs' \<Rightarrow> mkdir fs' p)
          else mkdir fs p)"
  by pat_completeness auto
termination
  by (relation "measure (\<lambda>(fs, p). length p)") auto

declare makedirs.simps [simp del]

text \<open>
  Modelled from the spec: \<open>verify_directory\<close> of \<open>tlt.utils.file_utils\<close>, which is not
  among the sources. The documentation of \<open>export\<close> gives its contract: the output
  directory is a writeable directory, a path that exists as a file raises
  \<open>FileExistsError\<close>; a missing directory is created. The \<open>TypeError\<close> for a path
  that is not a \<open>str\<close> cannot arise here, a \<open>path\<close> being one.
\<close>

definition verify_directory :: "filesystem \<Rightarrow> path \<Rightarrow> error + filesystem" where
  "verify_directory fs directory_path =
     (case fs directory_path of
        Some File \<Rightarrow> Inl FileExistsError
      | Some (Dir names) \<Rightarrow> Inr fs
      | None \<Rightarrow> makedirs fs directory_path)"

text \<open>
  \<open>self._model.save(filepath)\<close> of Keras, as far as the directory tree goes: the
  directory and its missing ancestors are created and \<open>saved_model.pb\<close> is written into
  it, over an earlier export at the same path.
\<close>

definition save :: "filesystem \<Rightarrow> path \<Rightarrow> error + filesystem" where
  "save fs filepath =
     (case makedirs fs filepath of
        Inl e \<Rightarrow> Inl e
      | Inr fs' \<Rightarrow>
          (case fs' filepath of
             Some (Dir names) \<Rightarrow>
               Inr (fs'(filepath \<mapsto> Dir (add_entry ''saved_model.pb'' names),
                        filepath @ [''saved_model.pb''] \<mapsto> File))
           | _ \<Rightarrow> Inl NotADirectoryError))"

text \<open>\<open>"{}".format(n)\<close> for \<open>n \<ge> 0\<close>: the decimal digits of \<open>n\<close>.\<close>

definition digit_char :: "nat \<Rightarrow> char" where
  "digit_char d = char_of (48 + d)"

function str_nat :: "nat \<Rightarrow> string" where
  "str_nat n = (if n < 10 then [digit_char n] else str_nat (n div 10) @ [digit_char (n mod 10)])"
  by pat_completeness auto
termination
  by (relation "measure id") auto

declare str_nat.simps [simp del]

section \<open>\<open>TFModel.export\<close>\<close>

text \<open>
  The object, as far as \<open>export\<close> reads it: the name, and \<open>_model\<close>, which is \<open>None\<close>
  until the model is loaded or trained.
\<close>

datatype keras_model = KerasModel

record TFModel =
  model_name :: string
  model :: "keras_model option"

text \<open>
  \<open>validate_model_name\<close> of \<open>tlt.utils.file_utils\<close> is not among the sources and is a
  parameter. The result is the path returned and the file system after the call.
\<close>

definition export ::
  "(string \<Rightarrow> string) \<Rightarrow> TFModel \<Rightarrow> filesystem \<Rightarrow> path \<Rightarrow> error + (path \<times> filesystem)" where
  "export validate_model_name self fs output_dir =
     (case model self of
        None \<Rightarrow>
          Inl (ValueError
            ''Unable to export the model, because it hasn't been loaded or trained yet'')
      | Some m \<Rightarrow>
          (case verify_directory fs output_dir of
             Inl e \<Rightarrow> Inl e
           | Inr fs1 \<Rightarrow>
               (let val_model_name = validate_model_name (model_name self);
                    saved_model_dir = output_dir @ [val_model_name];
                    chosen =
                      (if path_exists fs1 saved_model_dir then
                         (case listdir fs1 saved_model_dir of
                            Inl e \<Rightarrow> Inl e
                          | Inr names \<Rightarrow>
                              if length names \<noteq> 0
                              then Inr (saved_model_dir @ [str_nat (length names + 1)])
                              else Inr (saved_model_dir @ [''1'']))
                       else Inr (saved_model_dir @ [''1'']))
                in case chosen of
                     Inl e \<Rightarrow> Inl e
                   | Inr saved_model_dir' \<Rightarrow>
                       (case save fs1 saved_model_dir' of
                          Inl e \<Rightarrow> Inl e
                        | Inr fs2 \<Rightarrow> Inr (saved_model_dir', fs2)))))"

text \<open>The names in a directory; none for a path that is missing or a file.\<close>

definition entries :: "filesystem \<Rightarrow> path \<Rightarrow> string list" where
  "entries fs p = (case fs p of Some (Dir names) \<Rightarrow> names | _ \<Rightarrow> [])"

text \<open>\<open>N\<close> calls of \<open>export\<close>, one after the other: the paths returned, in order.\<close>

fun exports ::
  "(string \<Rightarrow> string) \<Rightarrow> TFModel \<Rightarrow> path \<Rightarrow> nat \<Rightarrow> filesystem
     \<Rightarrow> error + (path list \<times> filesystem)" where
  "exports validate_model_name self output_dir 0 fs = Inr ([], fs)"
| "exports validate_model_name self output_dir (Suc n) fs =
     (case export validate_model_name self fs output_dir of
        Inl e \<Rightarrow> Inl e
      | Inr (p, fs1) \<Rightarrow>
          (case exports validate_model_name self output_dir n fs1 of
             Inl e \<Rightarrow> Inl e
           | Inr (ps, fs2) \<Rightarrow> Inr (p # ps, fs2)))"

text \<open>
  The numbered subdirectories of a directory, as the specification counts them: the
  entries that are directories and whose name is a decimal number.
\<close>

definition is_dir :: "filesystem \<Rightarrow> path \<Rightarrow> bool" where
  "is_dir fs p = (case fs p of Some (Dir names) \<Rightarrow> True | _ \<Rightarrow> False)"

definition numbered_subdirectories :: "filesystem \<Rightarrow> path \<Rightarrow> string list" where
  "numbered_subdirectories fs d =
     filter (\<lambda>n. n \<noteq> [] \<and> list_all isdigit n \<and> is_dir fs (d @ [n])) (entries fs d)"

text \<open>
  The directory \<open>d\<close> holds exactly the versions \<open>1\<close> to \<open>k\<close> (for \<open>k = 0\<close> it is
  missing or empty), and no other child of \<open>d\<close> exists.
\<close>

definition versions_are :: "filesystem \<Rightarrow> path \<Rightarrow> nat \<Rightarrow> bool" where
  "versions_are fs d k =
     ((if k = 0 then fs d = None \<or> fs d = Some (Dir [])
       else fs d = Some (Dir (map str_nat [1..<Suc k])))
      \<and> (\<forall>n. n \<notin> set (map str_nat [1..<Suc k]) \<longrightarrow> fs (d @ [n]) = None))"

section \<open>The quantization command\<close>

text \<open>
  The command \<open>tlt.tools.cli.commands.quantize\<close> is not among the sources; only its tests
  are. The definitions of this section follow the specification (its sections 3, 4.3, 6
  and 7) and the calls, exit codes and messages that \<open>test_quantize_cli.py\<close> expects.
\<close>

text \<open>Modelled from the spec: the framework tag of a model (\<open>FrameworkType\<close> in the tests).\<close>

datatype framework = TENSORFLOW | PYTORCH

text \<open>Modelled from the spec: the use-case tag of a model.\<close>

datatype use_case = IMAGE_CLASSIFICATION | TEXT_CLASSIFICATION

text \<open>Modelled from the spec: the Model Handle, as far as the command reads it.\<close>

record model_handle =
  handle_name :: string
  handle_framework :: framework
  handle_use_case :: use_case

text \<open>Modelled from the spec: the Dataset Handle, an opaque reference to a loaded dataset.\<close>

datatype dataset_handle = Dataset path

text \<open>
  Modelled from the spec: a value given for a numeric flag on the command line.
  \<open>Number m e\<close> is a decimal literal with \<open>e\<close> digits after the point and the value
  \<open>m / 10 ^ e\<close> (an integer literal when \<open>e = 0\<close>); \<open>Word\<close> is any other text.
\<close>

datatype cli_value = Number int nat | Word string

text \<open>
  Modelled from the spec: the tuning parameters of the compression configuration
  (batch size, max trials, timeout, relative accuracy criterion); \<open>None\<close> is a flag left
  out, for which the command's default applies.
\<close>

record tuning =
  batch_size :: "int option"
  max_trials :: "int option"
  timeout :: "int option"
  accuracy_criterion :: "(int \<times> nat) option"

text \<open>Modelled from the spec: the arguments of \<open>quantize\<close> as given on the command line.\<close>

record raw_args =
  raw_model_dir :: path
  raw_dataset_dir :: path
  raw_output_dir :: path
  raw_inc_config :: "path option"
  raw_batch_size :: "cli_value option"
  raw_max_trials :: "cli_value option"
  raw_timeout :: "cli_value option"
  raw_accuracy_criterion :: "cli_value option"

text \<open>Modelled from the spec: the validated parameters the orchestrator is invoked with.\<close>

record args =
  model_dir :: path
  dataset_dir :: path
  quantize_output_dir :: path
  inc_config :: "path option"
  parameters :: tuning

text \<open>
  Modelled from the spec: the calls the orchestrator makes on its collaborators, which
  the tests observe on mocks.
\<close>

datatype call =
    GetModel string framework
  | LoadDataset path use_case framework
  | WriteIncConfigFile model_handle path dataset_handle tuning
  | Quantize model_handle path path path

text \<open>
  Modelled from the spec: the collaborators (model factory, dataset factory, and the
  two operations of the model contract that the command uses). They are parameters;
  \<open>Inl\<close> is the message of the exception a collaborator raises.
\<close>

record collaborators =
  get_model :: "string \<Rightarrow> framework \<Rightarrow> string + model_handle"
  load_dataset :: "path \<Rightarrow> use_case \<Rightarrow> framework \<Rightarrow> string + dataset_handle"
  write_inc_config_file :: "model_handle \<Rightarrow> path \<Rightarrow> dataset_handle \<Rightarrow> tuning \<Rightarrow> string + unit"
  quantize :: "model_handle \<Rightarrow> path \<Rightarrow> path \<Rightarrow> path \<Rightarrow> string + unit"

text \<open>Modelled from the spec: what an invocation leaves: exit code, output, calls made.\<close>

record outcome =
  exit_code :: int
  messages :: "string list"
  calls :: "call list"

text \<open>Modelled from the spec: the message of the unsupported-model-file error (section 8, scenario 8).\<close>

definition unsupported_model_file :: string where
  "unsupported_model_file =
     ''Quantization is currently only implemented for TensorFlow saved_model.pb and PyTorch model.pt models.''"

text \<open>Modelled from the spec: a directory name that is a numeric version.\<close>

definition is_numeric :: "string \<Rightarrow> bool" where
  "is_numeric s = (s \<noteq> [] \<and> list_all isdigit s)"

text \<open>
  Modelled from the spec: step 1 of the orchestrator, the candidate model name: the
  model directory's own name, and for a directory that is a numeric version the name
  of the directory above it.
\<close>

definition candidate_model_name :: "path \<Rightarrow> string" where
  "candidate_model_name dir =
     (case rev dir of
        [] \<Rightarrow> []
      | leaf # up \<Rightarrow>
          if is_numeric leaf then (case up of [] \<Rightarrow> [] | parent # _ \<Rightarrow> parent) else leaf)"

text \<open>
  Modelled from the spec: step 1 of the orchestrator, the framework: \<open>saved_model.pb\<close>
  implies one framework, \<open>model.pt\<close> the other, neither is an error. The specification
  does not say which wins when both are present; \<open>both\<close> is that choice.
\<close>

definition resolve_framework :: "framework \<Rightarrow> string list \<Rightarrow> framework option" where
  "resolve_framework both contents =
     (if ''saved_model.pb'' \<in> set contents \<and> ''model.pt'' \<in> set contents then Some both
      else if ''saved_model.pb'' \<in> set contents then Some TENSORFLOW
      else if ''model.pt'' \<in> set contents then Some PYTORCH
      else None)"

text \<open>
  Modelled from the spec: the Versioned Output Directory rule of section 3, \<open>1 +\<close> the
  count of existing numbered subdirectories.
\<close>

definition next_version_dir :: "filesystem \<Rightarrow> path \<Rightarrow> path" where
  "next_version_dir fs dir = dir @ [str_nat (1 + length (numbered_subdirectories fs dir))]"

text \<open>Modelled from the spec: an exception in steps 1 to 4 gives exit code 1 and a message.\<close>

definition failed :: "string \<Rightarrow> call list \<Rightarrow> outcome" where
  "failed message made = \<lparr>exit_code = 1, messages = [message], calls = made\<rparr>"

text \<open>Modelled from the spec: step 4 of the orchestrator, the call of \<open>quantize\<close>.\<close>

definition run_quantize ::
  "collaborators \<Rightarrow> args \<Rightarrow> model_handle \<Rightarrow> path \<Rightarrow> path \<Rightarrow> call list \<Rightarrow> outcome" where
  "run_quantize c a m dest config made =
     (let made' = made @ [Quantize m (model_dir a) dest config]
      in case quantize c m (model_dir a) dest config of
           Inl e \<Rightarrow> failed e made'
         | Inr u \<Rightarrow> \<lparr>exit_code = 0, messages = [], calls = made'\<rparr>)"

text \<open>
  Modelled from the spec: step 3 of the orchestrator. A config path the caller supplied
  is used as it is; otherwise \<open>write_inc_config_file\<close> is called for a path under the
  destination.
\<close>

definition resolve_config ::
  "collaborators \<Rightarrow> args \<Rightarrow> model_handle \<Rightarrow> dataset_handle \<Rightarrow> path \<Rightarrow> call list \<Rightarrow> outcome" where
  "resolve_config c a m ds dest made =
     (case inc_config a of
        Some p \<Rightarrow> run_quantize c a m dest p made
      | None \<Rightarrow>
          (let p = dest @ [''inc_config.yaml''];
               made' = made @ [WriteIncConfigFile m p ds (parameters a)]
           in case write_inc_config_file c m p ds (parameters a) of
                Inl e \<Rightarrow> failed e made'
              | Inr u \<Rightarrow> run_quantize c a m dest p made'))"

text \<open>Modelled from the spec: step 2 of the orchestrator, the model and the dataset.\<close>

definition acquire ::
  "collaborators \<Rightarrow> filesystem \<Rightarrow> args \<Rightarrow> string \<Rightarrow> framework \<Rightarrow> outcome" where
  "acquire c fs a name fw =
     (case get_model c name fw of
        Inl e \<Rightarrow> failed (''An error occurred while getting the model: '' @ e) [GetModel name fw]
      | Inr m \<Rightarrow>
          (let made = [GetModel name fw,
                       LoadDataset (dataset_dir a) (handle_use_case m) (handle_framework m)]
           in case load_dataset c (dataset_dir a) (handle_use_case m) (handle_framework m) of
                Inl e \<Rightarrow> failed e made
              | Inr ds \<Rightarrow>
                  resolve_config c a m ds
                    (next_version_dir fs (quantize_output_dir a @ [''quantized'', name])) made))"

text \<open>Modelled from the spec: the orchestrator of section 4.3, on validated parameters.\<close>

definition orchestrate :: "framework \<Rightarrow> collaborators \<Rightarrow> filesystem \<Rightarrow> args \<Rightarrow> outcome" where
  "orchestrate both c fs a =
     (case resolve_framework both (entries fs (model_dir a)) of
        None \<Rightarrow> failed unsupported_model_file []
      | Some fw \<Rightarrow> acquire c fs a (candidate_model_name (model_dir a)) fw)"

text \<open>Modelled from the spec: an integer flag with a lower bound (\<open>INT>0\<close>, \<open>INT\<ge>0\<close>).\<close>

fun int_at_least :: "int \<Rightarrow> cli_value \<Rightarrow> int option" where
  "int_at_least lo (Number m 0) = (if lo \<le> m then Some m else None)"
| "int_at_least lo (Number m (Suc e)) = None"
| "int_at_least lo (Word w) = None"

text \<open>Modelled from the spec: the flag \<open>FLOAT in [0,1]\<close>.\<close>

fun fraction_in_unit :: "cli_value \<Rightarrow> (int \<times> nat) option" where
  "fraction_in_unit (Number m e) = (if 0 \<le> m \<and> m \<le> 10 ^ e then Some (m, e) else None)"
| "fraction_in_unit (Word w) = None"

text \<open>Modelled from the spec: the message of an argument-validation error, as the tests expect it.\<close>

definition invalid_value :: "string \<Rightarrow> string" where
  "invalid_value flag = ''Invalid value for '' @ [CHR 0x27] @ flag @ [CHR 0x27]"

text \<open>Modelled from the spec: the validation of an optional flag.\<close>

definition checked :: "string \<Rightarrow> (cli_value \<Rightarrow> 'a option) \<Rightarrow> cli_value option \<Rightarrow> string + 'a option" where
  "checked flag conv v =
     (case v of
        None \<Rightarrow> Inr None
      | Some x \<Rightarrow>
          (case conv x of
             None \<Rightarrow> Inl (invalid_value flag)
           | Some y \<Rightarrow> Inr (Some y)))"

text \<open>
  Modelled from the spec: the argument validation of section 6: the model and dataset
  directories must exist, the numeric flags must be well-formed and in range.
\<close>

definition validate :: "filesystem \<Rightarrow> raw_args \<Rightarrow> string + args" where
  "validate fs r =
     (if \<not> is_dir fs (raw_model_dir r) then Inl (invalid_value ''--model-dir'')
      else if \<not> is_dir fs (raw_dataset_dir r) then Inl (invalid_value ''--dataset-dir'')
      else
        (case checked ''--batch-size'' (int_at_least 1) (raw_batch_size r) of
           Inl e \<Rightarrow> Inl e
         | Inr b \<Rightarrow>
        (case checked ''--accuracy-criterion'' fraction_in_unit (raw_accuracy_criterion r) of
           Inl e \<Rightarrow> Inl e
         | Inr acc \<Rightarrow>
        (case checked ''--timeout'' (int_at_least 0) (raw_timeout r) of
           Inl e \<Rightarrow> Inl e
         | Inr t \<Rightarrow>
        (case checked ''--max-trials'' (int_at_least 1) (raw_max_trials r) of
           Inl e \<Rightarrow> Inl e
         | Inr mt \<Rightarrow>
             Inr \<lparr>model_dir = raw_model_dir r, dataset_dir = raw_dataset_dir r,
                  quantize_output_dir = raw_output_dir r, inc_config = raw_inc_config r,
                  parameters = \<lparr>batch_size = b, max_trials = mt, timeout = t,
                                accuracy_criterion = acc\<rparr>\<rparr>)))))"

text \<open>
  Modelled from the spec: the command. A validation error ends it with exit code 2
  before any model or dataset work; otherwise the orchestrator runs.
\<close>

definition quantize_cli :: "framework \<Rightarrow> collaborators \<Rightarrow> filesystem \<Rightarrow> raw_args \<Rightarrow> outcome" where
  "quantize_cli both c fs r =
     (case validate fs r of
        Inl message \<Rightarrow> \<lparr>exit_code = 2, messages = [message], calls = []\<rparr>
      | Inr a \<Rightarrow> orchestrate both c fs a)"

text \<open>The calls of one kind in a list of calls.\<close>

definition generation_calls :: "call list \<Rightarrow> call list" where
  "generation_calls cs = filter (\<lambda>c. case c of WriteIncConfigFile m p ds t \<Rightarrow> True | _ \<Rightarrow> False) cs"

definition factory_calls :: "call list \<Rightarrow> call list" where
  "factory_calls cs = filter (\<lambda>c. case c of GetModel n f \<Rightarrow> True | _ \<Rightarrow> False) cs"

definition quantize_calls :: "call list \<Rightarrow> call list" where
  "quantize_calls cs = filter (\<lambda>c. case c of Quantize m s d p \<Rightarrow> True | _ \<Rightarrow> False) cs"

text \<open>Writing a regular file: its directory must exist.\<close>

definition write_file :: "filesystem \<Rightarrow> path \<Rightarrow> error + filesystem" where
  "write_file fs p =
     (case fs p of
        Some (Dir names) \<Rightarrow> Inl IsADirectoryError
      | _ \<Rightarrow>
          (case fs (butlast p) of
             Some (Dir names) \<Rightarrow>
               Inr (fs(butlast p \<mapsto> Dir (add_entry (last p) names), p \<mapsto> File))
           | Some File \<Rightarrow> Inl NotADirectoryError
           | None \<Rightarrow> Inl FileNotFoundError))"

text \<open>
  Modelled from the spec: the contract of \<open>write_inc_config_file\<close>, which \<open>model.py\<close>
  declares and documents but does not implement: \<open>FileExistsError\<close> if the config file
  already exists and \<open>overwrite\<close> is false, \<open>NotImplementedError\<close> if the model or
  dataset does not support config generation (\<open>supported\<close>), \<open>ValueError\<close> if the
  parameters are not within the expected values (\<open>in_range\<close>); on success the file is
  written.
\<close>

definition write_inc_config_file_contract ::
  "bool \<Rightarrow> bool \<Rightarrow> filesystem \<Rightarrow> path \<Rightarrow> bool \<Rightarrow> error + filesystem" where
  "write_inc_config_file_contract supported in_range fs config_file_path overwrite =
     (if fs config_file_path \<noteq> None \<and> \<not> overwrite then Inl FileExistsError
      else if \<not> supported then Inl NotImplementedError
      else if \<not> in_range then Inl (ValueError ''parameters are not within the expected values'')
      else write_file fs config_file_path)"

text \<open>
  The fixtures of \<open>test_quantize_cli.py\<close>: collaborators that succeed, as the mocks do;
  the temporary directory with \<open><name>/3/<file>\<close> and \<open>data\<close>; the invocation with
  the three directories and no optional flag.
\<close>

definition mock :: collaborators where
  "mock =
     \<lparr>get_model = (\<lambda>name fw. Inr \<lparr>handle_name = name, handle_framework = fw,
                                      handle_use_case = IMAGE_CLASSIFICATION\<rparr>),
      load_dataset = (\<lambda>dir uc fw. Inr (Dataset dir)),
      write_inc_config_file = (\<lambda>m p ds t. Inr ()),
      quantize = (\<lambda>m src dest p. Inr ())\<rparr>"

definition tmp_dir :: "string \<Rightarrow> string \<Rightarrow> filesystem" where
  "tmp_dir name file =
     Map.empty([] \<mapsto> Dir [''tmp''],
       [''tmp''] \<mapsto> Dir [name, ''data''],
       [''tmp'', name] \<mapsto> Dir [''3''],
       [''tmp'', name, ''3''] \<mapsto> Dir [file],
       [''tmp'', name, ''3'', file] \<mapsto> File,
       [''tmp'', ''data''] \<mapsto> Dir [])"

definition invocation :: "string \<Rightarrow> raw_args" where
  "invocation name =
     \<lparr>raw_model_dir = [''tmp'', name, ''3''], raw_dataset_dir = [''tmp'', ''data''],
      raw_output_dir = [''tmp'', ''output''], raw_inc_config = None, raw_batch_size = None,
      raw_max_trials = None, raw_timeout = None, raw_accuracy_criterion = None\<rparr>"

section \<open>The matcher decides the words of a pattern\<close>

lemma nullable_lang: "nullable r \<longleftrightarrow> [] \<in> lang r"
  by (induction r) (auto simp: conc_def intro: lang_star.star_nil)

lemma lang_cat: "lang (cat r s) = conc (lang r) (lang s)"
  by (cases r) (auto simp: conc_def)

lemma lang_alt: "lang (alt r s) = lang r \<union> lang s"
  by (cases r; cases s) auto

lemma cons_conc:
  "c # w \<in> conc A B \<longleftrightarrow>
     (\<exists>u v. w = u @ v \<and> c # u \<in> A \<and> v \<in> B) \<or> ([] \<in> A \<and> c # w \<in> B)"
  by (auto simp: conc_def Cons_eq_append_conv) 

lemma cons_star_D:
  assumes "x \<in> lang_star A" and "x = c # w"
  shows "\<exists>u v. w = u @ v \<and> c # u \<in> A \<and> v \<in> lang_star A"
  using assms
proof (induction arbitrary: w rule: lang_star.induct)
  case star_nil
  then show ?case by simp
next
  case (star_app u v)
  show ?case
  proof (cases u)
    case Nil
    with star_app show ?thesis by simp
  next
    case (Cons d u')
    with star_app.prems have "d = c" and "w = u' @ v" by simp_all
    with Cons star_app.hyps show ?thesis by blast
  qed
qed

lemma cons_star:
  "c # w \<in> lang_star A \<longleftrightarrow> (\<exists>u v. w = u @ v \<and> c # u \<in> A \<and> v \<in> lang_star A)"
proof
  assume "c # w \<in> lang_star A"
  then show "\<exists>u v. w = u @ v \<and> c # u \<in> A \<and> v \<in> lang_star A"
    by (rule cons_star_D) simp
next
  assume "\<exists>u v. w = u @ v \<and> c # u \<in> A \<and> v \<in> lang_star A"
  then obtain u v where "w = u @ v" "c # u \<in> A" "v \<in> lang_star A" by blast
  then show "c # w \<in> lang_star A"
    using lang_star.star_app [of "c # u" A v] by simp
qed

lemma in_conc: "w \<in> conc A B \<longleftrightarrow> (\<exists>u v. w = u @ v \<and> u \<in> A \<and> v \<in> B)"
  by (auto simp: conc_def)

lemma lang_deriv: "w \<in> lang (deriv c r) \<longleftrightarrow> c # w \<in> lang r"
proof (induction r arbitrary: w)
  case (Cat r s)
  have left: "w \<in> conc (lang (deriv c r)) (lang s) \<longleftrightarrow>
      (\<exists>u v. w = u @ v \<and> c # u \<in> lang r \<and> v \<in> lang s)"
    by (simp add: in_conc Cat.IH)
  show ?case
    by (simp add: lang_cat lang_alt cons_conc left Cat.IH nullable_lang)
next
  case (Star r)
  have "w \<in> conc (lang (deriv c r)) (lang_star (lang r)) \<longleftrightarrow>
      (\<exists>u v. w = u @ v \<and> c # u \<in> lang r \<and> v \<in> lang_star (lang r))"
    by (simp add: in_conc Star.IH)
  then show ?case
    by (simp add: lang_cat cons_star)
qed (auto simp: lang_alt)

lemma lang_derivs: "nullable (derivs r w) \<longleftrightarrow> w \<in> lang r"
  by (induction w arbitrary: r) (auto simp: nullable_lang lang_deriv)

lemma fullmatch_lang: "fullmatch r w \<longleftrightarrow> w \<in> lang r"
  by (simp add: fullmatch_def lang_derivs)

lemma star_chars:
  assumes "w \<in> lang_star A" and "\<And>u. u \<in> A \<Longrightarrow> set u \<subseteq> C"
  shows "set w \<subseteq> C"
  using assms by (induction rule: lang_star.induct) auto

lemma lang_chars: "w \<in> lang r \<Longrightarrow> set w \<subseteq> chars r"
proof (induction r arbitrary: w)
  case (Star r)
  then show ?case using star_chars [of w "lang r" "chars r"] by auto
next
  case (Cat r s)
  then show ?case by (fastforce simp: in_conc)
qed auto

section \<open>Lines the hostfile patterns reject\<close>

lemma lang_lit: "lang (lit s) = {s}"
  unfolding lit_def by (induction s) (auto simp: in_conc conc_def)

lemma find_matches_first_bad:
  assumes "\<forall>x \<in> set pre. first_match valid_regexes x \<noteq> None"
    and "first_match valid_regexes l = None"
  shows "find_matches (pre @ l # post) = Inl (ValueError (''Invalid line in the hostfile: '' @ l))"
  using assms by (induction pre) (auto split: option.splits sum.splits)

lemma find_matches_error:
  "find_matches ls = Inl e \<Longrightarrow> \<exists>l \<in> set ls. first_match valid_regexes l = None \<and> e = ValueError (''Invalid line in the hostfile: '' @ l)"
  by (induction ls arbitrary: e) (auto split: option.splits sum.splits)

lemma find_matches_bad:
  assumes "l \<in> set ls" "first_match valid_regexes l = None"
  shows "\<exists>m. find_matches ls = Inl (ValueError m)"
  using assms by (induction ls) (auto split: option.splits sum.splits)

lemma parse_first_bad:
  assumes "\<forall>x \<in> set pre. first_match valid_regexes (rstrip x) \<noteq> None"
    and "first_match valid_regexes (rstrip l) = None"
  shows "parse_hostfile g (pre @ l # post) = Inl (ValueError (''Invalid line in the hostfile: '' @ rstrip l))"
  using find_matches_first_bad [of "map rstrip pre" "rstrip l" "map rstrip post"] assms
  by (simp add: parse_hostfile_def)

lemma one_or_two:
  "w \<in> lang (Cat (Cls cs) (opt (Cls cs))) \<Longrightarrow> length w = 1 \<or> length w = 2"
  by (auto simp: in_conc opt_def)

lemma suffix_shape:
  assumes "s \<in> lang (Cat R (Cat (lit sep) (Cat digit (opt digit))))"
  shows "\<exists>a d. s = a @ sep @ d \<and> (length d = 1 \<or> length d = 2)"
proof -
  from assms obtain a d where "s = a @ sep @ d" "d \<in> lang (Cat digit (opt digit))"
    by (auto simp: in_conc lang_lit)
  then show ?thesis using one_or_two [of d "''0123456789''"] unfolding digit_def by blast
qed

lemma no_tail:
  assumes sx: "s = x @ n" and n3: "3 \<le> length n" and nD: "set n \<subseteq> D"
    and sa: "s = a @ sep @ d" and sep: "sep \<noteq> []" "last sep \<notin> D"
    and d: "length d = 1 \<or> length d = 2"
  shows False
proof -
  define p where "p = length a + length sep - 1"
  have sep_eq: "sep = butlast sep @ [last sep]" using sep by simp
  have "s = (a @ butlast sep) @ last sep # d"
    using sa sep_eq by (metis append.assoc append_Cons append_Nil)
  moreover have "length (a @ butlast sep) = p"
    using sep by (cases sep) (auto simp: p_def)
  ultimately have at_p: "s ! p = last sep"
    by (metis nth_append_length)
  have "length (x @ n) = length (a @ sep @ d)" using sx sa by simp
  then have len: "length x + length n = length a + length sep + length d" by simp
  have "0 < length sep" using sep by simp
  with len n3 d have lo: "length x \<le> p" and hi: "p - length x < length n"
    by (auto simp: p_def)
  from lo have "s ! p = n ! (p - length x)"
    using sx by (simp add: nth_append)
  with hi have "s ! p \<in> set n" by simp
  with at_p nD sep show False by auto
qed

lemma not_in_chars: "c \<notin> chars r \<Longrightarrow> c \<in> set w \<Longrightarrow> w \<notin> lang r"
  using lang_chars by blast

lemma chars_lit: "chars (lit s) = set s"
  unfolding lit_def by (induction s) auto

lemma chars_ip: "chars ip_re = set ''0123456789.''"
  by (auto simp: ip_re_def octet_def chars_lit digit_def opt_def)

lemma chars_hostname: "chars hostname_re = set ''abcdefghijklmnopqrstuvwxyzABCDEFGHIJKLMNOPQRSTUVWXYZ0123456789-.''"
  by (auto simp: hostname_re_def label_def chars_lit alnum_def alnum_dash_def)

lemma no_match_tail:
  assumes line: "line = x @ n" and n3: "3 \<le> length n" and nD: "set n \<subseteq> D"
    and nl: "CHR 0x0A \<notin> D" and sep: "sep \<noteq> []" "last sep \<notin> D"
  shows "\<not> re_match (Cat R (Cat (lit sep) (Cat digit (opt digit)))) line"
proof
  assume m: "re_match (Cat R (Cat (lit sep) (Cat digit (opt digit)))) line"
  from line n3 have ne: "n \<noteq> []" by auto
  then have "last line = last n" using line by simp
  moreover have "last n \<in> set n" using ne by simp
  ultimately have "last line \<in> D" using nD by (metis subsetD)
  then have "last line \<noteq> CHR 0x0A" using nl by metis
  with m have "fullmatch (Cat R (Cat (lit sep) (Cat digit (opt digit)))) line"
    unfolding re_match_def by blast
  then have "line \<in> lang (Cat R (Cat (lit sep) (Cat digit (opt digit))))"
    by (simp only: fullmatch_lang)
  then obtain a d where "line = a @ sep @ d" "length d = 1 \<or> length d = 2"
    using suffix_shape by blast
  then show False
    by (rule no_tail [OF line n3 nD _ sep])
qed

lemma no_match_plain:
  assumes "c \<in> set line" "c \<notin> chars R" "c \<noteq> CHR 0x0A"
  shows "\<not> re_match R line"
proof
  assume m: "re_match R line"
  show False
  proof (cases "fullmatch R line")
    case True
    then show False using assms not_in_chars [of c R line] by (simp add: fullmatch_lang)
  next
    case False
    with m have l: "line \<noteq> []" "last line = CHR 0x0A" "butlast line \<in> lang R"
      by (auto simp: re_match_def fullmatch_lang)
    then have "line = butlast line @ [CHR 0x0A]" by (metis append_butlast_last_id)
    with assms(1,3) have "c \<in> set (butlast line)"
      by (metis Un_iff empty_iff empty_set set_ConsD set_append)
    with l(3) assms(2) show False using not_in_chars by blast
  qed
qed

lemma digits_facts:
  "CHR 0x0A \<notin> set ''0123456789''" "last '' slots='' \<notin> set ''0123456789''"
  "last '':'' \<notin> set ''0123456789''"
  by simp_all

lemma outside_chars:
  "CHR '' '' \<notin> chars ip_re" "CHR '':'' \<notin> chars ip_re"
  "CHR '' '' \<notin> chars hostname_re" "CHR '':'' \<notin> chars hostname_re"
  by (simp_all add: chars_ip chars_hostname)

lemma tail_slots:
  assumes "line = x @ n" "3 \<le> length n" "set n \<subseteq> set ''0123456789''"
  shows "\<not> re_match (Cat R slots_re) line"
  unfolding slots_re_def
  by (rule no_match_tail [OF assms digits_facts(1) _ digits_facts(2)]) simp

lemma tail_colon:
  assumes "line = x @ n" "3 \<le> length n" "set n \<subseteq> set ''0123456789''"
  shows "\<not> re_match (Cat R colon_re) line"
  unfolding colon_re_def
  by (rule no_match_tail [OF assms digits_facts(1) _ digits_facts(3)]) simp

lemma plain_space:
  assumes "CHR '' '' \<in> set line"
  shows "\<not> re_match ip_re line" "\<not> re_match hostname_re line"
  by (rule no_match_plain [OF assms outside_chars(1)], simp)
     (rule no_match_plain [OF assms outside_chars(3)], simp)

lemma plain_colon:
  assumes "CHR '':'' \<in> set line"
  shows "\<not> re_match ip_re line" "\<not> re_match hostname_re line"
  by (rule no_match_plain [OF assms outside_chars(2)], simp)
     (rule no_match_plain [OF assms outside_chars(4)], simp)

lemma three_digits_no_match:
  assumes n: "set n \<subseteq> set ''0123456789''" "3 \<le> length n"
    and form: "line = a @ '' slots='' @ n \<or> line = a @ '':'' @ n"
  shows "first_match valid_regexes line = None"
proof -
  from form show ?thesis
  proof
    assume l: "line = a @ '' slots='' @ n"
    then have x: "line = (a @ '' slots='') @ n" by simp
    from l have c: "CHR '' '' \<in> set line" by simp
    show ?thesis
      unfolding valid_regexes_def
      by (simp add: tail_slots [OF x n(2) n(1)] tail_colon [OF x n(2) n(1)] plain_space [OF c])
  next
    assume l: "line = a @ '':'' @ n"
    then have x: "line = (a @ '':'') @ n" by simp
    from l have c: "CHR '':'' \<in> set line" by simp
    show ?thesis
      unfolding valid_regexes_def
      by (simp add: tail_slots [OF x n(2) n(1)] tail_colon [OF x n(2) n(1)] plain_colon [OF c])
  qed
qed

section \<open>Properties of \<open>_parse_hostfile\<close>\<close>

text \<open>
  Claim C5, as stated, fails: the parser removes the trailing white space of every line
  before it matches and before it quotes. The line \<open>bad line!\<close> followed by three
  blanks and a tab matches none of the six patterns, and the message quotes
  \<open>bad line!\<close>, not the line as it stands in the file; the line \<open>127.0.0.1\<close> followed
  by a blank matches none of the six patterns as it stands, and the parse succeeds.
\<close>

theorem invalid_line_quoted_without_trailing_space:
  "first_match valid_regexes (''bad line!   '' @ [CHR 0x09]) = None
   \<and> parse_hostfile Inr [''bad line!   '' @ [CHR 0x09]] =
       Inl (ValueError ''Invalid line in the hostfile: bad line!'')
   \<and> parse_hostfile Inr [''bad line!   '' @ [CHR 0x09]] \<noteq>
       Inl (ValueError (''Invalid line in the hostfile: '' @ ''bad line!   '' @ [CHR 0x09]))
   \<and> first_match valid_regexes ''127.0.0.1 '' = None
   \<and> parse_hostfile Inr [''127.0.0.1 ''] =
       Inr \<lparr>ip_addresses = [''127.0.0.1''], slots = [PyInt 0]\<rparr>"
  by code_simp

text \<open>
  Claim C5, amended. If some line of the hostfile, with its trailing white space
  removed, matches none of the six patterns, the parse fails with the \<open>ValueError\<close>
  that quotes the first such line, without its trailing white space, whatever the
  later lines are and whatever the resolver would answer; no \<open>hostfile_info\<close> is
  returned.
\<close>

theorem parse_hostfile_invalid_line:
  assumes "\<exists>l \<in> set raw. first_match valid_regexes (rstrip l) = None"
  shows "\<exists>pre l post. raw = pre @ l # post
           \<and> (\<forall>x \<in> set pre. first_match valid_regexes (rstrip x) \<noteq> None)
           \<and> first_match valid_regexes (rstrip l) = None
           \<and> parse_hostfile gethostbyname raw =
               Inl (ValueError (''Invalid line in the hostfile: '' @ rstrip l))"
proof -
  from assms obtain pre l post where d: "raw = pre @ l # post"
    "first_match valid_regexes (rstrip l) = None"
    "\<forall>x \<in> set pre. first_match valid_regexes (rstrip x) \<noteq> None"
    using split_list_first_prop [of raw "\<lambda>l. first_match valid_regexes (rstrip l) = None"]
    by blast
  with parse_first_bad [of pre l gethostbyname post] show ?thesis by blast
qed

theorem parse_hostfile_invalid_line_witness:
  "(\<exists>l \<in> set [''127.0.0.1'' @ [CHR 0x0A], ''bad line!'' @ [CHR 0x0A], ''node_1'' @ [CHR 0x0A]].
      first_match valid_regexes (rstrip l) = None)
   \<and> (\<exists>pre l post.
        [''127.0.0.1'' @ [CHR 0x0A], ''bad line!'' @ [CHR 0x0A], ''node_1'' @ [CHR 0x0A]] = pre @ l # post
      \<and> (\<forall>x \<in> set pre. first_match valid_regexes (rstrip x) \<noteq> None)
      \<and> first_match valid_regexes (rstrip l) = None
      \<and> parse_hostfile Inr [''127.0.0.1'' @ [CHR 0x0A], ''bad line!'' @ [CHR 0x0A], ''node_1'' @ [CHR 0x0A]] =
           Inl (ValueError (''Invalid line in the hostfile: '' @ rstrip l)))
   \<and> parse_hostfile Inr [''127.0.0.1'' @ [CHR 0x0A], ''bad line!'' @ [CHR 0x0A], ''node_1'' @ [CHR 0x0A]] =
        Inl (ValueError ''Invalid line in the hostfile: bad line!'')"
proof -
  have h: "\<exists>l \<in> set [''127.0.0.1'' @ [CHR 0x0A], ''bad line!'' @ [CHR 0x0A], ''node_1'' @ [CHR 0x0A]].
      first_match valid_regexes (rstrip l) = None"
    by code_simp
  have e: "parse_hostfile Inr [''127.0.0.1'' @ [CHR 0x0A], ''bad line!'' @ [CHR 0x0A], ''node_1'' @ [CHR 0x0A]] =
        Inl (ValueError ''Invalid line in the hostfile: bad line!'')"
    by code_simp
  from h e parse_hostfile_invalid_line [OF h, of Inr] show ?thesis by blast
qed

text \<open>
  Claim C10. A line that ends in \<open> slots=N\<close> or \<open>:N\<close> with \<open>N\<close> of three or more
  decimal digits matches none of the six patterns, whatever stands before the slot
  part. A hostfile with such a line fails to parse with a \<open>ValueError\<close>, which quotes
  that line when every line before it is accepted.
\<close>

theorem slot_count_three_digits_rejected:
  assumes "set n \<subseteq> set ''0123456789''" and "3 \<le> length n"
    and "rstrip l = a @ '' slots='' @ n \<or> rstrip l = a @ '':'' @ n"
  shows "first_match valid_regexes (rstrip l) = None
       \<and> (\<exists>m. parse_hostfile gethostbyname (pre @ l # post) = Inl (ValueError m))
       \<and> ((\<forall>x \<in> set pre. first_match valid_regexes (rstrip x) \<noteq> None) \<longrightarrow>
            parse_hostfile gethostbyname (pre @ l # post) =
              Inl (ValueError (''Invalid line in the hostfile: '' @ rstrip l)))"
proof -
  have none: "first_match valid_regexes (rstrip l) = None"
    using assms by (rule three_digits_no_match)
  have "rstrip l \<in> set (map rstrip (pre @ l # post))" by simp
  then obtain m where "find_matches (map rstrip (pre @ l # post)) = Inl (ValueError m)"
    using find_matches_bad [OF _ none] by blast
  then have "parse_hostfile gethostbyname (pre @ l # post) = Inl (ValueError m)"
    by (simp add: parse_hostfile_def)
  with none parse_first_bad [of pre l gethostbyname post] show ?thesis by blast
qed

theorem slot_count_three_digits_rejected_witness:
  "set ''128'' \<subseteq> set ''0123456789'' \<and> 3 \<le> length ''128''
   \<and> rstrip (''10.0.0.7 slots=128'' @ [CHR 0x0A]) = ''10.0.0.7'' @ '' slots='' @ ''128''
   \<and> first_match valid_regexes (rstrip (''10.0.0.6 slots=12'' @ [CHR 0x0A])) = Some valid_ip_with_slot
   \<and> first_match valid_regexes (rstrip (''10.0.0.7 slots=128'' @ [CHR 0x0A])) = None
   \<and> parse_hostfile Inr ([''10.0.0.6 slots=12'' @ [CHR 0x0A]] @ (''10.0.0.7 slots=128'' @ [CHR 0x0A]) # []) =
        Inl (ValueError (''Invalid line in the hostfile: '' @ rstrip (''10.0.0.7 slots=128'' @ [CHR 0x0A])))"
proof -
  have a: "set ''128'' \<subseteq> set ''0123456789''" by simp
  have b: "3 \<le> length ''128''" by simp
  have c: "rstrip (''10.0.0.7 slots=128'' @ [CHR 0x0A]) = ''10.0.0.7'' @ '' slots='' @ ''128''"
    by code_simp
  have d: "first_match valid_regexes (rstrip (''10.0.0.6 slots=12'' @ [CHR 0x0A])) = Some valid_ip_with_slot"
    by code_simp
  then have d': "\<forall>x \<in> set [''10.0.0.6 slots=12'' @ [CHR 0x0A]]. first_match valid_regexes (rstrip x) \<noteq> None"
    by simp
  from slot_count_three_digits_rejected [OF a b disjI1 [OF c], of Inr "[''10.0.0.6 slots=12'' @ [CHR 0x0A]]" "[]"] a b c d d'
  show ?thesis by blast
qed

text \<open>
  Claim C6. For a line with a slot part the parser stores the digits as they stand in
  the line, a \<open>str\<close>, where a bare address gets the integer \<open>0\<close>: the \<open>slots\<close>
  list of this two-line hostfile holds \<open>0\<close> and \<open>'2'\<close>.
\<close>

theorem slot_value_is_a_string:
  "parse_hostfile Inr [''127.0.0.1'' @ [CHR 0x0A], ''127.0.0.1 slots=2'' @ [CHR 0x0A]] =
     Inr \<lparr>ip_addresses = [''127.0.0.1'', ''127.0.0.1''], slots = [PyInt 0, PyStr ''2'']\<rparr>"
  by code_simp

section \<open>Properties of \<open>set_auto_mixed_precision\<close>\<close>

text \<open>
  Claim C8, as stated, fails: with TensorFlow 2.8.0 and the setting \<open>None\<close>, a failure
  to detect the CPU type is caught, but nothing is printed, since the message is
  printed only \<open>if auto_mixed_precision_supported\<close>.
\<close>

theorem amp_detection_failure_not_reported:
  "set_auto_mixed_precision (Some ''2.8.0'') (Inl ''lscpu not found'') AmpNone =
     Inr \<lparr>printed = [], experimental_options = None\<rparr>"
  by code_simp

text \<open>
  Claim C8, amended. Whenever the version numbers can be read: with the setting \<open>None\<close>
  and a detected CPU type, the option is set to true only for the type \<open>SPR\<close> (and only
  on a version that supports it); a detection failure never raises, leaves the
  optimization off, and is reported with a message exactly when the version supports
  the feature; on a version that predates the feature an explicit request to enable
  changes nothing and prints a warning.
\<close>

theorem set_auto_mixed_precision_auto:
  assumes "tf_version_numbers VERSION = Inr v"
  shows "set_auto_mixed_precision VERSION (Inr t) AmpNone =
           Inr \<lparr>printed =
                  (if auto_mixed_precision_supported v \<and> t = ''SPR''
                   then [''Enabling auto_mixed_precision_mkl''] else []),
                experimental_options =
                  (if auto_mixed_precision_supported v then Some (t = ''SPR'') else None)\<rparr>
       \<and> set_auto_mixed_precision VERSION (Inl msg) AmpNone =
           Inr \<lparr>printed =
                  (if auto_mixed_precision_supported v
                   then [''Unable to determine the CPU type: '' @ msg] else []),
                experimental_options =
                  (if auto_mixed_precision_supported v then Some False else None)\<rparr>
       \<and> (\<not> auto_mixed_precision_supported v \<longrightarrow>
            set_auto_mixed_precision VERSION cpu (AmpBool True) =
              Inr \<lparr>printed =
                     [''Warning: Auto mixed precision requires TensorFlow 2.9.0 or later (found ''
                        @ format_version VERSION @ '').''],
                   experimental_options = None\<rparr>)"
  using assms by (simp add: set_auto_mixed_precision_def)

theorem set_auto_mixed_precision_auto_witness:
  "tf_version_numbers (Some ''2.8.4'') = Inr (2, 8)
   \<and> \<not> auto_mixed_precision_supported (2, 8)
   \<and> set_auto_mixed_precision (Some ''2.8.4'') (Inr ''SPR'') AmpNone =
       Inr \<lparr>printed = [], experimental_options = None\<rparr>
   \<and> set_auto_mixed_precision (Some ''2.8.4'') (Inl ''lscpu not found'') AmpNone =
       Inr \<lparr>printed = [], experimental_options = None\<rparr>
   \<and> set_auto_mixed_precision (Some ''2.8.4'') (Inr ''SPR'') (AmpBool True) =
       Inr \<lparr>printed =
              [''Warning: Auto mixed precision requires TensorFlow 2.9.0 or later (found 2.8.4).''],
            experimental_options = None\<rparr>
   \<and> tf_version_numbers (Some ''2.11.0'') = Inr (2, 11)
   \<and> auto_mixed_precision_supported (2, 11)
   \<and> set_auto_mixed_precision (Some ''2.11.0'') (Inr ''SPR'') AmpNone =
       Inr \<lparr>printed = [''Enabling auto_mixed_precision_mkl''],
            experimental_options = Some True\<rparr>
   \<and> set_auto_mixed_precision (Some ''2.11.0'') (Inr ''ICX'') AmpNone =
       Inr \<lparr>printed = [], experimental_options = Some False\<rparr>
   \<and> set_auto_mixed_precision (Some ''2.11.0'') (Inl ''lscpu not found'') AmpNone =
       Inr \<lparr>printed = [''Unable to determine the CPU type: lscpu not found''],
            experimental_options = Some False\<rparr>"
proof -
  have v: "tf_version_numbers (Some ''2.8.4'') = Inr (2, 8)" by code_simp
  have n: "\<not> auto_mixed_precision_supported (2, 8)"
    by (simp add: auto_mixed_precision_supported_def)
  have w: "tf_version_numbers (Some ''2.11.0'') = Inr (2, 11)" by code_simp
  have s: "auto_mixed_precision_supported (2, 11)"
    by (simp add: auto_mixed_precision_supported_def)
  from set_auto_mixed_precision_auto [OF v, of "''SPR''" "''lscpu not found''" "Inr ''SPR''"]
    set_auto_mixed_precision_auto [OF w, of "''SPR''" "''lscpu not found''"]
    set_auto_mixed_precision_auto [OF w, of "''ICX''" "''lscpu not found''"] v n w s
  show ?thesis by (simp add: format_version_def)
qed

section \<open>Properties of the file system operations\<close>

lemma mkdir_ok:
  assumes "fs p = None" "p \<noteq> []" "fs (butlast p) = Some (Dir names)"
  shows "mkdir fs p = Inr (fs(butlast p \<mapsto> Dir (add_entry (last p) names), p \<mapsto> Dir []))"
  using assms by (simp add: mkdir_def)

lemma makedirs_exists:
  "fs p = Some (Dir names) \<Longrightarrow> makedirs fs p = Inr fs"
  by (subst makedirs.simps) simp

lemma makedirs_parent:
  assumes "fs p = None" "p \<noteq> []" "fs (butlast p) = Some (Dir names)"
  shows "makedirs fs p = Inr (fs(butlast p \<mapsto> Dir (add_entry (last p) names), p \<mapsto> Dir []))"
  using assms by (subst makedirs.simps) (simp add: mkdir_ok)

lemma mkdir_frame:
  assumes "mkdir fs p = Inr fs'" "\<not> prefix q p"
  shows "fs' q = fs q"
proof -
  from assms(2) have "q \<noteq> p" by auto
  moreover from assms(2) have "q \<noteq> butlast p"
    using prefixeq_butlast [of p] by auto
  ultimately show ?thesis
    using assms(1) by (auto simp: mkdir_def split: if_splits option.splits node.splits)
qed

lemma mkdir_dir:
  assumes "mkdir fs p = Inr fs'"
  shows "fs' p = Some (Dir [])"
  using assms by (auto simp: mkdir_def split: if_splits option.splits node.splits)

lemma makedirs_frame:
  "makedirs fs p = Inr fs' \<Longrightarrow> \<not> prefix q p \<Longrightarrow> fs' q = fs q"
proof (induction fs p arbitrary: fs' rule: makedirs.induct)
  case (1 fs p)
  show ?case
  proof (cases "fs p")
    case (Some nd)
    with "1.prems"(1) show ?thesis
      by (subst (asm) makedirs.simps) (auto split: node.splits)
  next
    case None
    show ?thesis
    proof (cases "p \<noteq> [] \<and> butlast p \<noteq> [] \<and> fs (butlast p) = None")
      case True
      with None "1.prems"(1) obtain fs1 where
        a: "makedirs fs (butlast p) = Inr fs1" and b: "mkdir fs1 p = Inr fs'"
        by (subst (asm) makedirs.simps) (auto split: sum.splits)
      from "1.prems"(2) have "\<not> prefix q (butlast p)"
        using prefixeq_butlast [of p] prefix_order.trans by blast
      with "1.IH" [OF None True a] have "fs1 q = fs q" by simp
      with mkdir_frame [OF b "1.prems"(2)] show ?thesis by simp
    next
      case False
      with None "1.prems"(1) have "mkdir fs p = Inr fs'"
        by (subst (asm) makedirs.simps) auto
      from mkdir_frame [OF this "1.prems"(2)] show ?thesis .
    qed
  qed
qed

lemma makedirs_dir:
  assumes "makedirs fs p = Inr fs'"
  shows "\<exists>names. fs' p = Some (Dir names)"
proof (cases "fs p")
  case (Some nd)
  with assms show ?thesis
    by (subst (asm) makedirs.simps) (auto split: node.splits)
next
  case None
  with assms obtain fs1 where "mkdir fs1 p = Inr fs'"
    by (subst (asm) makedirs.simps) (auto split: sum.splits if_splits)
  then show ?thesis using mkdir_dir by blast
qed

lemma verify_directory_dir:
  assumes "verify_directory fs p = Inr fs'"
  shows "\<exists>names. fs' p = Some (Dir names)"
  using assms makedirs_dir [of fs p fs']
  by (auto simp: verify_directory_def split: option.splits node.splits)

lemma verify_directory_frame:
  assumes "verify_directory fs p = Inr fs'" "\<not> prefix q p"
  shows "fs' q = fs q"
  using assms makedirs_frame [of fs p fs' q]
  by (auto simp: verify_directory_def split: option.splits node.splits)

lemma save_in_dir:
  assumes "fs d = Some (Dir names)" "fs (d @ [n]) = None"
  shows "save fs (d @ [n]) =
    Inr (fs(d \<mapsto> Dir (add_entry n names), d @ [n] \<mapsto> Dir [''saved_model.pb''],
            d @ [n, ''saved_model.pb''] \<mapsto> File))"
  using assms makedirs_parent [of fs "d @ [n]" names]
  by (simp add: save_def add_entry_def)

lemma save_existing:
  assumes "fs t = Some (Dir ns)"
  shows "save fs t =
    Inr (fs(t \<mapsto> Dir (add_entry ''saved_model.pb'' ns), t @ [''saved_model.pb''] \<mapsto> File))"
  using assms by (simp add: save_def makedirs_exists)

lemma save_new_dir:
  assumes "fs out = Some (Dir names)" "fs (out @ [v]) = None" "fs (out @ [v, n]) = None"
  shows "save fs (out @ [v, n]) =
    Inr (fs(out \<mapsto> Dir (add_entry v names), out @ [v] \<mapsto> Dir [n],
            out @ [v, n] \<mapsto> Dir [''saved_model.pb''],
            out @ [v, n, ''saved_model.pb''] \<mapsto> File))"
proof -
  let ?fs1 = "fs(out \<mapsto> Dir (add_entry v names), out @ [v] \<mapsto> Dir [])"
  have a: "makedirs fs (out @ [v]) = Inr ?fs1"
    using makedirs_parent [of fs "out @ [v]" names] assms by simp
  have b: "mkdir ?fs1 (out @ [v, n]) =
      Inr (?fs1(out @ [v] \<mapsto> Dir (add_entry n []), out @ [v, n] \<mapsto> Dir []))"
    using mkdir_ok [of ?fs1 "out @ [v, n]" "[]"] assms
    by (simp add: butlast_append)
  have c: "makedirs fs (out @ [v, n]) =
      Inr (?fs1(out @ [v] \<mapsto> Dir [n], out @ [v, n] \<mapsto> Dir []))"
  proof (cases "out = []")
    case True
    with assms a b show ?thesis
      by (subst makedirs.simps) (simp add: butlast_append add_entry_def)
  next
    case False
    with assms a b show ?thesis
      by (subst makedirs.simps) (simp add: butlast_append add_entry_def)
  qed
  show ?thesis
    by (simp add: save_def c add_entry_def)
qed

section \<open>Decimal numbers\<close>

lemma digit_char_inj:
  assumes "a < 10" "b < 10" "digit_char a = digit_char b"
  shows "a = b"
proof -
  have "(of_char (digit_char a) :: nat) = of_char (digit_char b)" using assms(3) by simp
  moreover have "(of_char (digit_char a) :: nat) = 48 + a" using assms(1)
    by (simp add: digit_char_def)
  moreover have "(of_char (digit_char b) :: nat) = 48 + b" using assms(2)
    by (simp add: digit_char_def)
  ultimately show ?thesis by simp
qed

lemma str_nat_length: "length (str_nat n) = (if n < 10 then 1 else Suc (length (str_nat (n div 10))))"
  by (subst str_nat.simps) simp

lemma str_nat_not_Nil: "str_nat n \<noteq> []"
  by (subst str_nat.simps) simp

lemma str_nat_inj: "str_nat m = str_nat n \<Longrightarrow> m = n"
proof (induction m arbitrary: n rule: str_nat.induct)
  case (1 m)
  show ?case
  proof (cases "m < 10")
    case True
    show ?thesis
    proof (cases "n < 10")
      case n: True
      from "1.prems" True n have "[digit_char m] = [digit_char n]"
        by (subst (asm) str_nat.simps, subst (asm) (2) str_nat.simps) simp
      with True n show ?thesis using digit_char_inj by simp
    next
      case n: False
      have "length (str_nat m) = 1" using True by (simp add: str_nat_length)
      moreover have "length (str_nat n) \<ge> 2"
        using n str_nat_not_Nil [of "n div 10"]
        by (simp add: str_nat_length Suc_le_eq)
      ultimately show ?thesis using "1.prems" by simp
    qed
  next
    case False
    show ?thesis
    proof (cases "n < 10")
      case n: True
      have "length (str_nat n) = 1" using n by (simp add: str_nat_length)
      moreover have "length (str_nat m) \<ge> 2"
        using False str_nat_not_Nil [of "m div 10"]
        by (simp add: str_nat_length Suc_le_eq)
      ultimately show ?thesis using "1.prems" by simp
    next
      case n: False
      have "str_nat m = str_nat (m div 10) @ [digit_char (m mod 10)]"
        using False by (subst str_nat.simps) simp
      moreover have "str_nat n = str_nat (n div 10) @ [digit_char (n mod 10)]"
        using n by (subst str_nat.simps) simp
      ultimately have e: "str_nat (m div 10) = str_nat (n div 10)"
        "digit_char (m mod 10) = digit_char (n mod 10)"
        using "1.prems" by simp_all
      from "1.IH" [OF False e(1)] have "m div 10 = n div 10" .
      moreover from e(2) have "m mod 10 = n mod 10"
        using digit_char_inj [of "m mod 10" "n mod 10"] by simp
      ultimately show ?thesis by (metis div_mult_mod_eq)
    qed
  qed
qed

lemma str_nat_1: "str_nat (Suc 0) = ''1''"
  by code_simp

lemma distinct_str_nat: "distinct (map str_nat [a..<b])"
  by (simp add: distinct_map inj_on_def) (metis str_nat_inj)

section \<open>Properties of \<open>export\<close>\<close>

lemma export_loaded:
  assumes "model self = Some m" and "verify_directory fs out = Inr fs1"
    and "d = out @ [v (model_name self)]"
  shows "export v self fs out =
    (case fs1 d of
       Some File \<Rightarrow> Inl NotADirectoryError
     | _ \<Rightarrow>
        (case save fs1 (d @ [str_nat (Suc (length (entries fs1 d)))]) of
           Inl e \<Rightarrow> Inl e
         | Inr fs2 \<Rightarrow> Inr (d @ [str_nat (Suc (length (entries fs1 d)))], fs2)))"
  using assms
  by (auto simp: export_def Let_def path_exists_def listdir_def entries_def str_nat_1
      split: option.splits node.splits sum.splits)

lemma export_step:
  assumes loaded: "model self = Some m"
    and d: "d = out @ [v (model_name self)]"
    and inv: "versions_are fs d k"
    and ex: "export v self fs out = Inr (p, fs2)"
  shows "p = d @ [str_nat (Suc k)] \<and> versions_are fs2 d (Suc k)"
proof -
  from ex loaded obtain fs1 where vd: "verify_directory fs out = Inr fs1"
    by (auto simp: export_def split: sum.splits)
  have np: "\<not> prefix d out" "\<not> prefix (d @ [n]) out" for n
    using d by (auto simp: prefix_def)
  have same: "fs1 d = fs d" "fs1 (d @ [n]) = fs (d @ [n])" for n
    using verify_directory_frame [OF vd] np by auto
  obtain names where out: "fs1 out = Some (Dir names)"
    using verify_directory_dir [OF vd] by blast
  let ?n = "str_nat (Suc k)"
  have len: "length (entries fs1 d) = k"
    using inv same(1) by (auto simp: versions_are_def entries_def split: if_splits)
  have new: "?n \<notin> set (map str_nat [1..<Suc k])"
    using str_nat_inj by fastforce
  then have free: "fs1 (d @ [?n]) = None"
    using inv same(2) by (simp add: versions_are_def)
  have nf: "fs1 d \<noteq> Some File"
    using inv same(1) by (auto simp: versions_are_def split: if_splits)
  from export_loaded [where v = v, OF loaded vd d] nf len
  have e: "export v self fs out =
      (case save fs1 (d @ [?n]) of Inl e \<Rightarrow> Inl e | Inr fs2 \<Rightarrow> Inr (d @ [?n], fs2))"
    by (auto split: option.splits node.splits)
  have upd: "[1..<Suc (Suc k)] = [1..<Suc k] @ [Suc k]" by simp
  show ?thesis
  proof (cases "fs1 d")
    case None
    then have k0: "k = 0" using inv same(1) by (auto simp: versions_are_def split: if_splits)
    from None free d have
      "fs1 (out @ [v (model_name self)]) = None"
      "fs1 (out @ [v (model_name self), ?n]) = None" by simp_all
    from save_new_dir [OF out this] e ex d
    have p: "p = d @ [?n]" and fs2: "fs2 = fs1(out \<mapsto> Dir (add_entry (v (model_name self)) names),
        d \<mapsto> Dir [?n], d @ [?n] \<mapsto> Dir [''saved_model.pb''],
        d @ [?n, ''saved_model.pb''] \<mapsto> File)"
      by auto
    have "fs2 (d @ [n]) = None" if "n \<noteq> ?n" for n
      using that inv same(2) [of n] k0 d by (simp add: fs2 versions_are_def)
    moreover have "fs2 d = Some (Dir [?n])" using d by (simp add: fs2)
    ultimately show ?thesis using p k0 by (simp add: versions_are_def)
  next
    case (Some nd)
    with nf have "\<exists>ns. fs1 d = Some (Dir ns)" by (cases nd) auto
    then obtain ns where ns: "fs1 d = Some (Dir ns)" by blast
    have ns_eq: "ns = map str_nat [1..<Suc k]"
      using inv same(1) ns by (auto simp: versions_are_def split: if_splits)
    from save_in_dir [OF ns free] e ex
    have p: "p = d @ [?n]" and fs2: "fs2 = fs1(d \<mapsto> Dir (add_entry ?n ns),
        d @ [?n] \<mapsto> Dir [''saved_model.pb''], d @ [?n, ''saved_model.pb''] \<mapsto> File)"
      by auto
    have "add_entry ?n ns = map str_nat [1..<Suc (Suc k)]"
      using new unfolding ns_eq add_entry_def upd by simp
    then have "fs2 d = Some (Dir (map str_nat [1..<Suc (Suc k)]))" by (simp add: fs2)
    moreover have "fs2 (d @ [n]) = None" if "n \<notin> set (map str_nat [1..<Suc (Suc k)])" for n
    proof -
      from that have "n \<noteq> ?n" "n \<notin> set (map str_nat [1..<Suc k])" unfolding upd by auto
      then show ?thesis using inv same(2) [of n] by (simp add: fs2 versions_are_def)
    qed
    ultimately show ?thesis using p by (simp add: versions_are_def)
  qed
qed

lemma exports_from:
  assumes loaded: "model self = Some m"
    and d: "d = out @ [v (model_name self)]"
  shows "versions_are fs d k \<Longrightarrow> exports v self out N fs = Inr (ps, fs') \<Longrightarrow>
     ps = map (\<lambda>i. d @ [str_nat i]) [Suc k..<Suc (k + N)] \<and> versions_are fs' d (k + N)"
proof (induction N arbitrary: fs k ps)
  case 0
  then show ?case by simp
next
  case (Suc N)
  from Suc.prems(2) obtain p fs1 qs where
    a: "export v self fs out = Inr (p, fs1)" and
    b: "exports v self out N fs1 = Inr (qs, fs')" and c: "ps = p # qs"
    by (auto split: sum.splits)
  from export_step [OF loaded d Suc.prems(1) a]
  have p: "p = d @ [str_nat (Suc k)]" and inv: "versions_are fs1 d (Suc k)" by simp_all
  from Suc.IH [OF inv b] have
    qs: "qs = map (\<lambda>i. d @ [str_nat i]) [Suc (Suc k)..<Suc (Suc k + N)]" and
    inv': "versions_are fs' d (Suc k + N)" by simp_all
  have u: "[Suc k..<Suc (k + Suc N)] = Suc k # [Suc (Suc k)..<Suc (Suc k + N)]"
    by (subst upt_conv_Cons) simp_all
  have "ps = map (\<lambda>i. d @ [str_nat i]) [Suc k..<Suc (k + Suc N)]"
    unfolding u c p qs by (simp only: list.map)
  moreover have "versions_are fs' d (k + Suc N)" using inv' by simp
  ultimately show ?case by blast
qed

lemma export_path:
  assumes loaded: "model self = Some m"
    and d: "d = out @ [v (model_name self)]"
    and ex: "export v self fs out = Inr (p, fs2)"
  shows "p = d @ [str_nat (Suc (length (entries fs d)))]"
proof -
  from ex loaded obtain fs1 where vd: "verify_directory fs out = Inr fs1"
    by (auto simp: export_def split: sum.splits)
  have "\<not> prefix d out" using d by (auto simp: prefix_def)
  then have "fs1 d = fs d" using verify_directory_frame [OF vd] by blast
  then have "entries fs1 d = entries fs d" by (simp add: entries_def)
  with export_loaded [where v = v, OF loaded vd d] ex show ?thesis
    by (auto split: option.splits node.splits sum.splits)
qed

lemma export_succeeds:
  assumes loaded: "model self = Some m"
    and d: "d = out @ [v (model_name self)]"
    and t: "t = d @ [str_nat (Suc (length (entries fs d)))]"
    and vd: "verify_directory fs out = Inr fs1"
    and nf: "fs d \<noteq> Some File" "fs t \<noteq> Some File"
  shows "\<exists>fs2. export v self fs out = Inr (t, fs2)
           \<and> (\<exists>names. fs2 t = Some (Dir names) \<and> ''saved_model.pb'' \<in> set names)
           \<and> fs2 (t @ [''saved_model.pb'']) = Some File"
proof -
  have "\<not> prefix d out" "\<not> prefix t out" using d t by (auto simp: prefix_def)
  then have same: "fs1 d = fs d" "fs1 t = fs t"
    using verify_directory_frame [OF vd] by blast+
  then have en: "entries fs1 d = entries fs d" by (simp add: entries_def)
  obtain names where out: "fs1 out = Some (Dir names)"
    using verify_directory_dir [OF vd] by blast
  have e: "export v self fs out =
      (case save fs1 t of Inl e \<Rightarrow> Inl e | Inr fs2 \<Rightarrow> Inr (t, fs2))"
    using export_loaded [where v = v, OF loaded vd d, unfolded en] nf(1) same(1)
    unfolding t by (auto split: option.splits node.splits)
  have "\<exists>fs2. save fs1 t = Inr fs2
           \<and> (\<exists>names. fs2 t = Some (Dir names) \<and> ''saved_model.pb'' \<in> set names)
           \<and> fs2 (t @ [''saved_model.pb'']) = Some File"
  proof (cases "fs1 t")
    case (Some nd)
    with nf(2) same(2) have "\<exists>ns. fs1 t = Some (Dir ns)" by (metis node.exhaust)
    then obtain ns where "fs1 t = Some (Dir ns)" by blast
    from save_existing [of fs1 t ns, OF this] show ?thesis by (simp add: add_entry_def)
  next
    case None
    show ?thesis
    proof (cases "fs1 d")
      case dn: None
      from None dn d t have
        "fs1 (out @ [v (model_name self)]) = None"
        "fs1 (out @ [v (model_name self), str_nat (Suc (length (entries fs d)))]) = None"
        by simp_all
      from save_new_dir [of fs1 out names, OF out this] d t show ?thesis by simp
    next
      case (Some nd)
      with nf(1) same(1) have "\<exists>ns. fs1 d = Some (Dir ns)" by (metis node.exhaust)
      then obtain ns where ns: "fs1 d = Some (Dir ns)" by blast
      from None t have "fs1 (d @ [str_nat (Suc (length (entries fs d)))]) = None" by simp
      from save_in_dir [of fs1 d ns, OF ns this] t show ?thesis by simp
    qed
  qed
  with e show ?thesis by auto
qed

text \<open>
  Claim C1, as stated, fails: the code counts every entry of the model's directory,
  not the numbered subdirectories. With a file \<open>notes.txt\<close> as the only entry there is
  no numbered subdirectory, yet the export goes to version \<open>2\<close>, and two exports
  leave the versions \<open>2\<close> and \<open>3\<close>.
\<close>

theorem export_version_ignores_entry_kind:
  "map_sum id fst
     (export id \<lparr>model_name = ''resnet'', model = Some KerasModel\<rparr>
        (Map.empty([] \<mapsto> Dir [''out''], [''out''] \<mapsto> Dir [''resnet''],
           [''out'', ''resnet''] \<mapsto> Dir [''notes.txt''],
           [''out'', ''resnet'', ''notes.txt''] \<mapsto> File))
        [''out''])
     = Inr [''out'', ''resnet'', ''2'']
   \<and> str_nat (1 + length (numbered_subdirectories
        (Map.empty([] \<mapsto> Dir [''out''], [''out''] \<mapsto> Dir [''resnet''],
           [''out'', ''resnet''] \<mapsto> Dir [''notes.txt''],
           [''out'', ''resnet'', ''notes.txt''] \<mapsto> File))
        [''out'', ''resnet''])) = ''1''
   \<and> map_sum id fst
     (exports id \<lparr>model_name = ''resnet'', model = Some KerasModel\<rparr> [''out''] 2
        (Map.empty([] \<mapsto> Dir [''out''], [''out''] \<mapsto> Dir [''resnet''],
           [''out'', ''resnet''] \<mapsto> Dir [''notes.txt''],
           [''out'', ''resnet'', ''notes.txt''] \<mapsto> File)))
     = Inr [[''out'', ''resnet'', ''2''], [''out'', ''resnet'', ''3'']]"
  by code_simp

text \<open>
  Claim C1, amended. A successful \<open>export\<close> goes to the version \<open>1 +\<close> the number of
  entries, of any kind, of \<open><output_dir>/<validated model name>/\<close>, which is \<open>1\<close> when
  that directory is missing or empty. When it is missing or empty at the start, the
  paths of \<open>N\<close> successful exports in a row are the versions \<open>1, \<dots>, N\<close> in this order,
  they are the entries of the directory afterwards, and no two are equal.
\<close>

theorem export_version_rule:
  assumes "model self = Some m"
    and "d = output_dir @ [validate_model_name (model_name self)]"
  shows "(export validate_model_name self fs output_dir = Inr (p, fs') \<longrightarrow>
            p = d @ [str_nat (1 + length (entries fs d))])
       \<and> ((fs d = None \<or> fs d = Some (Dir [])) \<and> (\<forall>n. fs (d @ [n]) = None)
            \<and> exports validate_model_name self output_dir N fs = Inr (ps, fs') \<longrightarrow>
            ps = map (\<lambda>i. d @ [str_nat i]) [1..<Suc N]
            \<and> entries fs' d = map str_nat [1..<Suc N]
            \<and> distinct (map str_nat [1..<Suc N]))"
proof (rule conjI; rule impI)
  assume "export validate_model_name self fs output_dir = Inr (p, fs')"
  from export_path [where v = validate_model_name, OF assms this]
  show "p = d @ [str_nat (1 + length (entries fs d))]" by simp
next
  assume a: "(fs d = None \<or> fs d = Some (Dir [])) \<and> (\<forall>n. fs (d @ [n]) = None)
      \<and> exports validate_model_name self output_dir N fs = Inr (ps, fs')"
  then have inv: "versions_are fs d 0" by (simp add: versions_are_def)
  from a have ex: "exports validate_model_name self output_dir N fs = Inr (ps, fs')" by simp
  from exports_from [where v = validate_model_name, OF assms inv ex]
  have r: "ps = map (\<lambda>i. d @ [str_nat i]) [Suc 0..<Suc N]" "versions_are fs' d N" by simp_all
  from r(2) have "entries fs' d = map str_nat [1..<Suc N]"
    by (auto simp: versions_are_def entries_def split: if_splits)
  with r(1) show "ps = map (\<lambda>i. d @ [str_nat i]) [1..<Suc N]
      \<and> entries fs' d = map str_nat [1..<Suc N] \<and> distinct (map str_nat [1..<Suc N])"
    using distinct_str_nat [of 1 "Suc N"] by simp
qed

theorem export_version_rule_witness:
  "model \<lparr>model_name = ''resnet'', model = Some KerasModel\<rparr> = Some KerasModel
   \<and> (Map.empty([] \<mapsto> Dir [''out''], [''out''] \<mapsto> Dir [])) [''out'', ''resnet''] = None
   \<and> (case exports id \<lparr>model_name = ''resnet'', model = Some KerasModel\<rparr> [''out''] 3
              (Map.empty([] \<mapsto> Dir [''out''], [''out''] \<mapsto> Dir [])) of
         Inl e \<Rightarrow> False
       | Inr (ps, fs') \<Rightarrow>
           ps = [[''out'', ''resnet'', ''1''], [''out'', ''resnet'', ''2''],
                 [''out'', ''resnet'', ''3'']]
           \<and> entries fs' [''out'', ''resnet''] = [''1'', ''2'', ''3''])
   \<and> (case export id \<lparr>model_name = ''resnet'', model = Some KerasModel\<rparr>
              (Map.empty([] \<mapsto> Dir [''out''], [''out''] \<mapsto> Dir [])) [''out''] of
         Inl e \<Rightarrow> False
       | Inr (p, fs') \<Rightarrow> p = [''out'', ''resnet'', ''1''])"
proof -
  let ?self = "\<lparr>model_name = ''resnet'', model = Some KerasModel\<rparr>"
  let ?fs = "Map.empty([] \<mapsto> Dir [''out''], [''out''] \<mapsto> Dir [])"
  let ?d = "[''out'', ''resnet'']"
  have m: "model ?self = Some KerasModel" by simp
  have d: "?d = [''out''] @ [id (model_name ?self)]" by simp
  have fresh: "?fs ?d = None" "\<forall>n. ?fs (?d @ [n]) = None" by simp_all
  have s: "map str_nat [1..<Suc 3] = [''1'', ''2'', ''3'']" by code_simp
  have s1: "str_nat (1 + length (entries ?fs ?d)) = ''1''" by code_simp
  have ok: "\<not> isl (exports id ?self [''out''] 3 ?fs)" by code_simp
  then obtain ps fs' where e: "exports id ?self [''out''] 3 ?fs = Inr (ps, fs')"
    by (cases "exports id ?self [''out''] 3 ?fs") auto
  have ok1: "\<not> isl (export id ?self ?fs [''out''])" by code_simp
  then obtain p fs1 where e1: "export id ?self ?fs [''out''] = Inr (p, fs1)"
    by (cases "export id ?self ?fs [''out'']") auto
  from export_version_rule [where validate_model_name = id, OF m d, of ?fs p fs1 3 ps] e1 s1
  have p: "p = [''out'', ''resnet'', ''1'']" by simp
  have c: "(?fs ?d = None \<or> ?fs ?d = Some (Dir [])) \<and> (\<forall>n. ?fs (?d @ [n]) = None)
      \<and> exports id ?self [''out''] 3 ?fs = Inr (ps, fs')"
    using fresh e by blast
  from export_version_rule [where validate_model_name = id, OF m d, of ?fs p fs' 3 ps] c
  have "ps = map (\<lambda>i. ?d @ [str_nat i]) [1..<Suc 3]"
    "entries fs' ?d = map str_nat [1..<Suc 3]" by blast+
  moreover have "map (\<lambda>i. ?d @ [str_nat i]) [1..<Suc 3] =
      [[''out'', ''resnet'', ''1''], [''out'', ''resnet'', ''2''], [''out'', ''resnet'', ''3'']]"
    by code_simp
  ultimately have "ps = [[''out'', ''resnet'', ''1''], [''out'', ''resnet'', ''2''],
                 [''out'', ''resnet'', ''3'']]"
    "entries fs' ?d = [''1'', ''2'', ''3'']" using s by simp_all
  with m fresh(1) e e1 p show ?thesis by simp
qed

text \<open>
  Claim C4, as stated, fails: a loaded model is not enough for \<open>export\<close> to write and
  return a path. An output directory that exists as a file raises \<open>FileExistsError\<close>,
  as the documentation of \<open>export\<close> says, and a file at the place of the model's
  directory makes \<open>os.listdir\<close> raise \<open>NotADirectoryError\<close>.
\<close>

theorem export_fails_on_file_paths:
  "export id \<lparr>model_name = ''resnet'', model = Some KerasModel\<rparr>
     (Map.empty([] \<mapsto> Dir [''out''], [''out''] \<mapsto> File)) [''out'']
     = Inl FileExistsError
   \<and> export id \<lparr>model_name = ''resnet'', model = Some KerasModel\<rparr>
     (Map.empty([] \<mapsto> Dir [''out''], [''out''] \<mapsto> Dir [''resnet''],
        [''out'', ''resnet''] \<mapsto> File)) [''out'']
     = Inl NotADirectoryError"
  by (simp add: export_def verify_directory_def path_exists_def listdir_def)

text \<open>
  Claim C4, amended. Without a loaded or trained model \<open>export\<close> raises the
  \<open>ValueError\<close> saying so. With one, when the output directory passes
  \<open>verify_directory\<close> and neither the model's directory nor the version directory
  chosen is a regular file, \<open>export\<close> writes \<open>saved_model.pb\<close> into
  \<open><output_dir>/<validated model name>/<n>\<close>, \<open>n\<close> being \<open>1 +\<close> the number of entries of
  the model's directory, and returns that path.
\<close>

theorem export_state_error_and_result:
  assumes "d = output_dir @ [validate_model_name (model_name self)]"
    and "t = d @ [str_nat (1 + length (entries fs d))]"
  shows "(model self = None \<longrightarrow>
            export validate_model_name self fs output_dir =
              Inl (ValueError
                ''Unable to export the model, because it hasn't been loaded or trained yet''))
       \<and> (model self = Some m \<and> verify_directory fs output_dir = Inr fs1
            \<and> fs d \<noteq> Some File \<and> fs t \<noteq> Some File \<longrightarrow>
            (\<exists>fs2. export validate_model_name self fs output_dir = Inr (t, fs2)
               \<and> (\<exists>names. fs2 t = Some (Dir names) \<and> ''saved_model.pb'' \<in> set names)
               \<and> fs2 (t @ [''saved_model.pb'']) = Some File))"
proof (rule conjI; rule impI)
  assume "model self = None"
  then show "export validate_model_name self fs output_dir =
      Inl (ValueError ''Unable to export the model, because it hasn't been loaded or trained yet'')"
    by (simp add: export_def)
next
  assume a: "model self = Some m \<and> verify_directory fs output_dir = Inr fs1
      \<and> fs d \<noteq> Some File \<and> fs t \<noteq> Some File"
  have t: "t = d @ [str_nat (Suc (length (entries fs d)))]" using assms(2) by simp
  from a export_succeeds [where v = validate_model_name, OF _ assms(1) t, of m fs1]
  show "\<exists>fs2. export validate_model_name self fs output_dir = Inr (t, fs2)
      \<and> (\<exists>names. fs2 t = Some (Dir names) \<and> ''saved_model.pb'' \<in> set names)
      \<and> fs2 (t @ [''saved_model.pb'']) = Some File" by blast
qed

theorem export_state_error_and_result_witness:
  "export id \<lparr>model_name = ''resnet'', model = None\<rparr>
      (Map.empty([] \<mapsto> Dir [''out''], [''out''] \<mapsto> Dir [])) [''out''] =
     Inl (ValueError ''Unable to export the model, because it hasn't been loaded or trained yet'')
   \<and> verify_directory (Map.empty([] \<mapsto> Dir [''out''], [''out''] \<mapsto> Dir [])) [''out''] =
       Inr (Map.empty([] \<mapsto> Dir [''out''], [''out''] \<mapsto> Dir []))
   \<and> (\<exists>fs2. export id \<lparr>model_name = ''resnet'', model = Some KerasModel\<rparr>
            (Map.empty([] \<mapsto> Dir [''out''], [''out''] \<mapsto> Dir [])) [''out''] =
          Inr ([''out'', ''resnet'', ''1''], fs2)
        \<and> (\<exists>names. fs2 [''out'', ''resnet'', ''1''] = Some (Dir names)
              \<and> ''saved_model.pb'' \<in> set names)
        \<and> fs2 [''out'', ''resnet'', ''1'', ''saved_model.pb''] = Some File)"
proof -
  let ?fs = "Map.empty([] \<mapsto> Dir [''out''], [''out''] \<mapsto> Dir [])"
  let ?d = "[''out'', ''resnet'']"
  let ?t = "[''out'', ''resnet'', ''1'']"
  have s1: "str_nat (1 + length (entries ?fs ?d)) = ''1''" by code_simp
  have d0: "?d = [''out''] @ [id (model_name \<lparr>model_name = ''resnet'', model = None\<rparr>)]" by simp
  have d1: "?d = [''out''] @ [id (model_name \<lparr>model_name = ''resnet'', model = Some KerasModel\<rparr>)]"
    by simp
  have t: "?t = ?d @ [str_nat (1 + length (entries ?fs ?d))]" unfolding s1 by simp
  have vd: "verify_directory ?fs [''out''] = Inr ?fs" by (simp add: verify_directory_def)
  have nf: "?fs ?d \<noteq> Some File" "?fs ?t \<noteq> Some File" by simp_all
  have a: "export id \<lparr>model_name = ''resnet'', model = None\<rparr> ?fs [''out''] =
     Inl (ValueError ''Unable to export the model, because it hasn't been loaded or trained yet'')"
    using export_state_error_and_result [where validate_model_name = id, OF d0 t, of KerasModel ?fs] by simp
  have b: "\<exists>fs2. export id \<lparr>model_name = ''resnet'', model = Some KerasModel\<rparr> ?fs [''out''] =
          Inr (?t, fs2)
        \<and> (\<exists>names. fs2 ?t = Some (Dir names) \<and> ''saved_model.pb'' \<in> set names)
        \<and> fs2 (?t @ [''saved_model.pb'']) = Some File"
    using export_state_error_and_result [where validate_model_name = id, OF d1 t, of KerasModel ?fs] vd nf by simp
  from a b vd show ?thesis by simp
qed

section \<open>Properties of the quantization command\<close>

lemma run_quantize_calls:
  "calls (run_quantize c a m dest config made) = made @ [Quantize m (model_dir a) dest config]"
  by (simp add: run_quantize_def failed_def Let_def split: sum.splits)

lemma resolve_config_supplied:
  "inc_config a = Some p \<Longrightarrow>
     calls (resolve_config c a m ds dest made) = made @ [Quantize m (model_dir a) dest p]"
  by (simp add: resolve_config_def run_quantize_calls)

lemma resolve_config_generated:
  "inc_config a = None \<Longrightarrow>
     generation_calls (calls (resolve_config c a m ds dest made)) =
       generation_calls made @ [WriteIncConfigFile m (dest @ [''inc_config.yaml'']) ds (parameters a)]"
  by (simp add: resolve_config_def run_quantize_calls failed_def generation_calls_def Let_def
      split: sum.splits)

lemma acquire_factory_calls:
  "factory_calls (calls (acquire c fs a name fw)) = [GetModel name fw]"
  by (simp add: acquire_def failed_def factory_calls_def resolve_config_def run_quantize_calls
      Let_def split: sum.splits option.splits)

lemma validate_fields:
  "validate fs r = Inr a \<Longrightarrow>
     model_dir a = raw_model_dir r \<and> dataset_dir a = raw_dataset_dir r
     \<and> inc_config a = raw_inc_config r \<and> quantize_output_dir a = raw_output_dir r"
  by (auto simp: validate_def split: if_splits sum.splits)

lemma checked_bad: "v = Some x \<Longrightarrow> conv x = None \<Longrightarrow> checked flag conv v = Inl (invalid_value flag)"
  by (simp add: checked_def)

lemma validate_bad_max_trials:
  "raw_max_trials r = Some x \<Longrightarrow> int_at_least 1 x = None \<Longrightarrow> \<exists>e. validate fs r = Inl e"
  by (simp add: validate_def checked_bad split: sum.splits)

lemma validate_bad_timeout:
  "raw_timeout r = Some x \<Longrightarrow> int_at_least 0 x = None \<Longrightarrow> \<exists>e. validate fs r = Inl e"
  by (simp add: validate_def checked_bad split: sum.splits)

lemma validate_bad_accuracy:
  "raw_accuracy_criterion r = Some x \<Longrightarrow> fraction_in_unit x = None \<Longrightarrow> \<exists>e. validate fs r = Inl e"
  by (simp add: validate_def checked_bad split: sum.splits)

lemma rejected: "validate fs r = Inl e \<Longrightarrow>
  exit_code (quantize_cli both c fs r) = 2 \<and> calls (quantize_cli both c fs r) = []"
  by (simp add: quantize_cli_def)

lemma write_file_result: "write_file fs p = Inr fs' \<Longrightarrow> fs' p = Some File"
  by (auto simp: write_file_def split: option.splits node.splits)

lemma contract_twice:
  assumes "write_inc_config_file_contract supported in_range fs p overwrite = Inr fs'"
  shows "write_inc_config_file_contract supported in_range fs' p False = Inl FileExistsError"
proof -
  from assms have "write_file fs p = Inr fs'"
    by (auto simp: write_inc_config_file_contract_def split: if_splits)
  then have "fs' p = Some File" by (rule write_file_result)
  then show ?thesis by (simp add: write_inc_config_file_contract_def)
qed

lemma orchestrate_success_steps:
  assumes "exit_code (orchestrate both c fs a) = 0"
  shows "\<exists>fw m ds. resolve_framework both (entries fs (model_dir a)) = Some fw
    \<and> get_model c (candidate_model_name (model_dir a)) fw = Inr m
    \<and> load_dataset c (dataset_dir a) (handle_use_case m) (handle_framework m) = Inr ds"
  using assms
  by (auto simp: orchestrate_def acquire_def failed_def Let_def split: option.splits sum.splits)

lemma orchestrate_generation:
  assumes "inc_config a = None"
    and "resolve_framework both (entries fs (model_dir a)) = Some fw"
    and "get_model c (candidate_model_name (model_dir a)) fw = Inr m"
    and "load_dataset c (dataset_dir a) (handle_use_case m) (handle_framework m) = Inr ds"
  shows "length (generation_calls (calls (orchestrate both c fs a))) = 1"
proof -
  have "generation_calls (calls (orchestrate both c fs a)) =
      generation_calls [GetModel (candidate_model_name (model_dir a)) fw,
        LoadDataset (dataset_dir a) (handle_use_case m) (handle_framework m)]
      @ [WriteIncConfigFile m
           (next_version_dir fs
              (quantize_output_dir a @ [''quantized'', candidate_model_name (model_dir a)])
            @ [''inc_config.yaml'']) ds (parameters a)]"
    using assms
    by (simp add: orchestrate_def acquire_def Let_def resolve_config_generated)
  then show ?thesis by (simp add: generation_calls_def)
qed

text \<open>
  Claim C2, as stated, fails: an invocation without a config path does not always make
  a config-generation call. When the model directory holds no recognized artifact the
  command stops at step 1, and no generation call is made.
\<close>

theorem no_generation_without_model_artifact:
  "raw_inc_config (invocation ''bar'') = None
   \<and> generation_calls (calls (quantize_cli TENSORFLOW mock
         (tmp_dir ''bar'' ''unsupported_model_type.txt'') (invocation ''bar''))) = []"
  by code_simp

text \<open>
  Claim C2, amended. With a config path supplied that exists and is not empty, no
  invocation makes a config-generation call, and every \<open>quantize\<close> call it makes gets
  the supplied path.
  Without one, an invocation that passes validation and acquires the model and the
  dataset makes exactly one config-generation call; so does every invocation that
  exits with code 0. And once \<open>write_inc_config_file\<close> has written a path, calling it
  again for the same path without \<open>overwrite\<close> fails with \<open>FileExistsError\<close>.
\<close>

theorem config_generation_calls:
  assumes "out = quantize_cli both c fs r"
  shows "(raw_inc_config r = Some p \<and> p \<noteq> [] \<and> path_exists fs p \<longrightarrow>
            generation_calls (calls out) = []
            \<and> (\<forall>m s d q. Quantize m s d q \<in> set (calls out) \<longrightarrow> q = p))
       \<and> (raw_inc_config r = None \<and> validate fs r = Inr a
            \<and> resolve_framework both (entries fs (model_dir a)) = Some fw
            \<and> get_model c (candidate_model_name (model_dir a)) fw = Inr m
            \<and> load_dataset c (dataset_dir a) (handle_use_case m) (handle_framework m) = Inr ds
            \<longrightarrow> length (generation_calls (calls out)) = 1)
       \<and> (raw_inc_config r = None \<and> exit_code out = 0 \<longrightarrow>
            length (generation_calls (calls out)) = 1)
       \<and> (write_inc_config_file_contract supported in_range fs path overwrite = Inr fs' \<longrightarrow>
            write_inc_config_file_contract supported in_range fs' path False =
              Inl FileExistsError)"
proof (intro conjI impI)
  assume "raw_inc_config r = Some p \<and> p \<noteq> [] \<and> path_exists fs p"
  then have p: "raw_inc_config r = Some p" by simp
  show "generation_calls (calls out) = []"
    using p validate_fields [of fs r]
    by (auto simp: assms quantize_cli_def orchestrate_def acquire_def failed_def Let_def
        resolve_config_supplied generation_calls_def split: sum.splits option.splits)
  show "\<forall>m s d q. Quantize m s d q \<in> set (calls out) \<longrightarrow> q = p"
    using p validate_fields [of fs r]
    by (auto simp: assms quantize_cli_def orchestrate_def acquire_def failed_def Let_def
        resolve_config_supplied split: sum.splits option.splits)
next
  assume h: "raw_inc_config r = None \<and> validate fs r = Inr a
      \<and> resolve_framework both (entries fs (model_dir a)) = Some fw
      \<and> get_model c (candidate_model_name (model_dir a)) fw = Inr m
      \<and> load_dataset c (dataset_dir a) (handle_use_case m) (handle_framework m) = Inr ds"
  then have "inc_config a = None" using validate_fields [of fs r a] by simp
  with h have "length (generation_calls (calls (orchestrate both c fs a))) = 1"
    using orchestrate_generation [of a both fs fw c m ds] by simp
  with h show "length (generation_calls (calls out)) = 1"
    by (simp add: assms quantize_cli_def)
next
  assume h: "raw_inc_config r = None \<and> exit_code out = 0"
  then obtain a where a: "validate fs r = Inr a"
    by (cases "validate fs r") (auto simp: assms quantize_cli_def)
  with h have n: "inc_config a = None" using validate_fields [of fs r a] by simp
  from h a have "exit_code (orchestrate both c fs a) = 0"
    by (simp add: assms quantize_cli_def)
  from orchestrate_success_steps [OF this] n
  have "length (generation_calls (calls (orchestrate both c fs a))) = 1"
    using orchestrate_generation [of a both fs _ c] by blast
  with a show "length (generation_calls (calls out)) = 1"
    by (simp add: assms quantize_cli_def)
next
  assume "write_inc_config_file_contract supported in_range fs path overwrite = Inr fs'"
  then show "write_inc_config_file_contract supported in_range fs' path False =
      Inl FileExistsError" by (rule contract_twice)
qed

theorem config_generation_calls_witness:
  "raw_inc_config ((invocation ''resnet50'')\<lparr>raw_inc_config := Some [''tmp'', ''inc_config.yaml'']\<rparr>)
     = Some [''tmp'', ''inc_config.yaml'']
   \<and> path_exists ((tmp_dir ''resnet50'' ''model.pt'')([''tmp'', ''inc_config.yaml''] \<mapsto> File))
        [''tmp'', ''inc_config.yaml'']
   \<and> generation_calls (calls (quantize_cli TENSORFLOW mock
        ((tmp_dir ''resnet50'' ''model.pt'')([''tmp'', ''inc_config.yaml''] \<mapsto> File))
        ((invocation ''resnet50'')\<lparr>raw_inc_config := Some [''tmp'', ''inc_config.yaml'']\<rparr>))) = []
   \<and> quantize_calls (calls (quantize_cli TENSORFLOW mock
        ((tmp_dir ''resnet50'' ''model.pt'')([''tmp'', ''inc_config.yaml''] \<mapsto> File))
        ((invocation ''resnet50'')\<lparr>raw_inc_config := Some [''tmp'', ''inc_config.yaml'']\<rparr>))) =
       [Quantize \<lparr>handle_name = ''resnet50'', handle_framework = PYTORCH,
                   handle_use_case = IMAGE_CLASSIFICATION\<rparr>
          [''tmp'', ''resnet50'', ''3''] [''tmp'', ''output'', ''quantized'', ''resnet50'', ''1'']
          [''tmp'', ''inc_config.yaml'']]
   \<and> raw_inc_config (invocation ''efficientnet_b0'') = None
   \<and> exit_code (quantize_cli TENSORFLOW mock (tmp_dir ''efficientnet_b0'' ''saved_model.pb'')
        (invocation ''efficientnet_b0'')) = 0
   \<and> length (generation_calls (calls (quantize_cli TENSORFLOW mock
        (tmp_dir ''efficientnet_b0'' ''saved_model.pb'') (invocation ''efficientnet_b0'')))) = 1
   \<and> (case write_inc_config_file_contract True True (tmp_dir ''resnet50'' ''model.pt'')
              [''tmp'', ''inc_config.yaml''] False of
         Inl e \<Rightarrow> False
       | Inr fs' \<Rightarrow>
           write_inc_config_file_contract True True fs' [''tmp'', ''inc_config.yaml''] False =
             Inl FileExistsError)"
proof -
  let ?r1 = "(invocation ''resnet50'')\<lparr>raw_inc_config := Some [''tmp'', ''inc_config.yaml'']\<rparr>"
  let ?fs1 = "(tmp_dir ''resnet50'' ''model.pt'')([''tmp'', ''inc_config.yaml''] \<mapsto> File)"
  let ?fs2 = "tmp_dir ''resnet50'' ''model.pt''"
  let ?r0 = "invocation ''efficientnet_b0''"
  let ?fs0 = "tmp_dir ''efficientnet_b0'' ''saved_model.pb''"
  have s: "raw_inc_config ?r1 = Some [''tmp'', ''inc_config.yaml'']" by (simp add: invocation_def)
  have e: "[''tmp'', ''inc_config.yaml''] \<noteq> [] \<and> path_exists ?fs1 [''tmp'', ''inc_config.yaml'']"
    by (simp add: path_exists_def)
  have n: "raw_inc_config ?r0 = None" by (simp add: invocation_def)
  have q: "quantize_calls (calls (quantize_cli TENSORFLOW mock ?fs1 ?r1)) =
       [Quantize \<lparr>handle_name = ''resnet50'', handle_framework = PYTORCH,
                   handle_use_case = IMAGE_CLASSIFICATION\<rparr>
          [''tmp'', ''resnet50'', ''3''] [''tmp'', ''output'', ''quantized'', ''resnet50'', ''1'']
          [''tmp'', ''inc_config.yaml'']]" by code_simp
  have x: "exit_code (quantize_cli TENSORFLOW mock ?fs0 ?r0) = 0" by code_simp
  have a: "generation_calls (calls (quantize_cli TENSORFLOW mock ?fs1 ?r1)) = []"
    using config_generation_calls [OF refl, where r = ?r1 and p = "[''tmp'', ''inc_config.yaml'']"
        and both = TENSORFLOW and c = mock and fs = ?fs1] s e by blast
  have b: "length (generation_calls (calls (quantize_cli TENSORFLOW mock ?fs0 ?r0))) = 1"
    using config_generation_calls [OF refl, where r = ?r0 and both = TENSORFLOW and c = mock
        and fs = ?fs0] n x by blast
  have ok: "\<not> isl (write_inc_config_file_contract True True ?fs2 [''tmp'', ''inc_config.yaml''] False)"
    by code_simp
  then obtain fs' where w:
    "write_inc_config_file_contract True True ?fs2 [''tmp'', ''inc_config.yaml''] False = Inr fs'"
    by (cases "write_inc_config_file_contract True True ?fs2 [''tmp'', ''inc_config.yaml''] False")
       auto
  have c: "write_inc_config_file_contract True True fs' [''tmp'', ''inc_config.yaml''] False =
      Inl FileExistsError"
    using config_generation_calls [OF refl, where r = ?r0 and both = TENSORFLOW and c = mock
        and fs = ?fs2 and supported = True and in_range = True
        and path = "[''tmp'', ''inc_config.yaml'']" and overwrite = False and fs' = fs'] w
    by blast
  from s e n q x a b c w show ?thesis by simp
qed

text \<open>
  Claim C3. For a model directory \<open>\<dots>/<name>/<version>\<close> with a numeric version, the
  orchestrator takes \<open><name>\<close> as the model name, and calls the model factory exactly
  once, with \<open><name>\<close> and the TensorFlow tag when the directory holds
  \<open>saved_model.pb\<close> (and not \<open>model.pt\<close>), with \<open><name>\<close> and the PyTorch tag when it
  holds \<open>model.pt\<close> (and not \<open>saved_model.pb\<close>), whatever the collaborators answer.
\<close>

theorem model_identity_from_directory:
  assumes "model_dir a = up @ [name, version]" and "is_numeric version"
  shows "candidate_model_name (model_dir a) = name
       \<and> (''saved_model.pb'' \<in> set (entries fs (model_dir a))
            \<and> ''model.pt'' \<notin> set (entries fs (model_dir a)) \<longrightarrow>
            factory_calls (calls (orchestrate both c fs a)) = [GetModel name TENSORFLOW])
       \<and> (''model.pt'' \<in> set (entries fs (model_dir a))
            \<and> ''saved_model.pb'' \<notin> set (entries fs (model_dir a)) \<longrightarrow>
            factory_calls (calls (orchestrate both c fs a)) = [GetModel name PYTORCH])"
proof -
  have n: "candidate_model_name (model_dir a) = name"
    using assms by (simp add: candidate_model_name_def)
  then show ?thesis
    by (simp add: orchestrate_def resolve_framework_def acquire_factory_calls)
qed

theorem model_identity_from_directory_witness:
  "is_numeric ''3''
   \<and> factory_calls (calls (orchestrate PYTORCH mock (tmp_dir ''efficientnet_b0'' ''saved_model.pb'')
        \<lparr>model_dir = [''tmp''] @ [''efficientnet_b0'', ''3''], dataset_dir = [''tmp'', ''data''],
         quantize_output_dir = [''tmp'', ''output''], inc_config = None,
         parameters = \<lparr>batch_size = Some 512, max_trials = None, timeout = None,
                       accuracy_criterion = None\<rparr>\<rparr>)) =
       [GetModel ''efficientnet_b0'' TENSORFLOW]
   \<and> factory_calls (calls (orchestrate TENSORFLOW mock (tmp_dir ''resnet50'' ''model.pt'')
        \<lparr>model_dir = [''tmp''] @ [''resnet50'', ''3''], dataset_dir = [''tmp'', ''data''],
         quantize_output_dir = [''tmp'', ''output''], inc_config = None,
         parameters = \<lparr>batch_size = Some 128, max_trials = None, timeout = None,
                       accuracy_criterion = None\<rparr>\<rparr>)) =
       [GetModel ''resnet50'' PYTORCH]"
proof -
  let ?a = "\<lparr>model_dir = [''tmp''] @ [''efficientnet_b0'', ''3''], dataset_dir = [''tmp'', ''data''],
         quantize_output_dir = [''tmp'', ''output''], inc_config = None,
         parameters = \<lparr>batch_size = Some 512, max_trials = None, timeout = None,
                       accuracy_criterion = None\<rparr>\<rparr>"
  let ?b = "\<lparr>model_dir = [''tmp''] @ [''resnet50'', ''3''], dataset_dir = [''tmp'', ''data''],
         quantize_output_dir = [''tmp'', ''output''], inc_config = None,
         parameters = \<lparr>batch_size = Some 128, max_trials = None, timeout = None,
                       accuracy_criterion = None\<rparr>\<rparr>"
  have v: "is_numeric ''3''" by (simp add: is_numeric_def isdigit_def)
  have ea: "entries (tmp_dir ''efficientnet_b0'' ''saved_model.pb'') (model_dir ?a) = [''saved_model.pb'']"
    by (simp add: entries_def tmp_dir_def)
  have eb: "entries (tmp_dir ''resnet50'' ''model.pt'') (model_dir ?b) = [''model.pt'']"
    by (simp add: entries_def tmp_dir_def)
  have da: "model_dir ?a = [''tmp''] @ [''efficientnet_b0'', ''3'']" by simp
  have db: "model_dir ?b = [''tmp''] @ [''resnet50'', ''3'']" by simp
  from model_identity_from_directory [OF da v, of "tmp_dir ''efficientnet_b0'' ''saved_model.pb''"
      PYTORCH mock] ea
  have 1: "factory_calls (calls (orchestrate PYTORCH mock
      (tmp_dir ''efficientnet_b0'' ''saved_model.pb'') ?a)) = [GetModel ''efficientnet_b0'' TENSORFLOW]"
    by simp
  from model_identity_from_directory [OF db v, of "tmp_dir ''resnet50'' ''model.pt''"
      TENSORFLOW mock] eb
  have 2: "factory_calls (calls (orchestrate TENSORFLOW mock
      (tmp_dir ''resnet50'' ''model.pt'') ?b)) = [GetModel ''resnet50'' PYTORCH]"
    by simp
  from v 1 2 show ?thesis by blast
qed

text \<open>
  Claim C7, as stated, fails: with a model directory that holds neither artifact
  (only \<open>saved_model.pt\<close>, as in \<open>TestQuantizationArgs\<close>) and \<open>--max-trials -1\<close>, the
  invocation exits with code 2, not 1, and the message is not printed.
\<close>

theorem invalid_flag_precedes_model_file_check:
  "entries (tmp_dir ''resnet_v1_50'' ''saved_model.pt'') [''tmp'', ''resnet_v1_50'', ''3'']
     = [''saved_model.pt'']
   \<and> exit_code (quantize_cli TENSORFLOW mock (tmp_dir ''resnet_v1_50'' ''saved_model.pt'')
        ((invocation ''resnet_v1_50'')\<lparr>raw_max_trials := Some (Number (- 1) 0)\<rparr>)) = 2
   \<and> unsupported_model_file \<notin> set (messages (quantize_cli TENSORFLOW mock
        (tmp_dir ''resnet_v1_50'' ''saved_model.pt'')
        ((invocation ''resnet_v1_50'')\<lparr>raw_max_trials := Some (Number (- 1) 0)\<rparr>)))"
  by code_simp

text \<open>
  Claim C7, amended. For every invocation whose arguments pass validation and whose
  model directory holds neither \<open>saved_model.pb\<close> nor \<open>model.pt\<close>, the exit code is 1,
  the output contains the message, and no collaborator is called.
\<close>

theorem unsupported_model_file_exit:
  assumes "validate fs r = Inr a"
    and "''saved_model.pb'' \<notin> set (entries fs (raw_model_dir r))"
    and "''model.pt'' \<notin> set (entries fs (raw_model_dir r))"
  shows "exit_code (quantize_cli both c fs r) = 1
       \<and> unsupported_model_file \<in> set (messages (quantize_cli both c fs r))
       \<and> calls (quantize_cli both c fs r) = []"
  using assms validate_fields [OF assms(1)]
  by (simp add: quantize_cli_def orchestrate_def resolve_framework_def failed_def)

theorem unsupported_model_file_exit_witness:
  "isl (validate (tmp_dir ''bar'' ''unsupported_model_type.txt'') (invocation ''bar'')) = False
   \<and> ''saved_model.pb'' \<notin> set (entries (tmp_dir ''bar'' ''unsupported_model_type.txt'')
        (raw_model_dir (invocation ''bar'')))
   \<and> ''model.pt'' \<notin> set (entries (tmp_dir ''bar'' ''unsupported_model_type.txt'')
        (raw_model_dir (invocation ''bar'')))
   \<and> exit_code (quantize_cli TENSORFLOW mock (tmp_dir ''bar'' ''unsupported_model_type.txt'')
        (invocation ''bar'')) = 1
   \<and> unsupported_model_file \<in> set (messages (quantize_cli TENSORFLOW mock
        (tmp_dir ''bar'' ''unsupported_model_type.txt'') (invocation ''bar'')))
   \<and> calls (quantize_cli TENSORFLOW mock (tmp_dir ''bar'' ''unsupported_model_type.txt'')
        (invocation ''bar'')) = []"
proof -
  let ?fs = "tmp_dir ''bar'' ''unsupported_model_type.txt''"
  let ?r = "invocation ''bar''"
  have ok: "isl (validate ?fs ?r) = False" by code_simp
  then obtain a where v: "validate ?fs ?r = Inr a" by (cases "validate ?fs ?r") auto
  have e: "''saved_model.pb'' \<notin> set (entries ?fs (raw_model_dir ?r))"
    "''model.pt'' \<notin> set (entries ?fs (raw_model_dir ?r))"
    by (simp_all add: entries_def tmp_dir_def invocation_def)
  from unsupported_model_file_exit [OF v e, of TENSORFLOW mock] ok e show ?thesis by blast
qed

text \<open>
  Claim C9. An invocation with a max-trials value that is zero, negative or not an
  integer literal, a timeout value that is negative or not an integer literal, or an
  accuracy-criterion value outside \<open>[0, 1]\<close> or not a number, exits with code 2 without
  any call on the model factory, the dataset factory or the model.
\<close>

theorem invalid_numeric_flags_rejected:
  assumes "(\<exists>x. raw_max_trials r = Some x
              \<and> ((\<exists>m. x = Number m 0 \<and> m \<le> 0) \<or> (\<exists>m e. x = Number m (Suc e))
                  \<or> (\<exists>w. x = Word w)))
         \<or> (\<exists>x. raw_timeout r = Some x
              \<and> ((\<exists>m. x = Number m 0 \<and> m < 0) \<or> (\<exists>m e. x = Number m (Suc e))
                  \<or> (\<exists>w. x = Word w)))
         \<or> (\<exists>x. raw_accuracy_criterion r = Some x
              \<and> ((\<exists>m e. x = Number m e \<and> (m < 0 \<or> 10 ^ e < m)) \<or> (\<exists>w. x = Word w)))"
  shows "exit_code (quantize_cli both c fs r) = 2 \<and> calls (quantize_cli both c fs r) = []"
proof -
  have "\<exists>e. validate fs r = Inl e"
    if "raw_max_trials r = Some x" "int_at_least 1 x = None" for x
    using that by (rule validate_bad_max_trials)
  moreover have "\<exists>e. validate fs r = Inl e"
    if "raw_timeout r = Some x" "int_at_least 0 x = None" for x
    using that by (rule validate_bad_timeout)
  moreover have "\<exists>e. validate fs r = Inl e"
    if "raw_accuracy_criterion r = Some x" "fraction_in_unit x = None" for x
    using that by (rule validate_bad_accuracy)
  moreover from assms have
    "(\<exists>x. raw_max_trials r = Some x \<and> int_at_least 1 x = None)
     \<or> (\<exists>x. raw_timeout r = Some x \<and> int_at_least 0 x = None)
     \<or> (\<exists>x. raw_accuracy_criterion r = Some x \<and> fraction_in_unit x = None)"
    by (elim disjE exE conjE) auto
  ultimately have "\<exists>e. validate fs r = Inl e" by blast
  then show ?thesis using rejected by blast
qed

theorem invalid_numeric_flags_rejected_witness:
  "exit_code (quantize_cli TENSORFLOW mock (tmp_dir ''resnet_v1_50'' ''saved_model.pt'')
      ((invocation ''resnet_v1_50'')\<lparr>raw_max_trials := Some (Number (- 1) 0)\<rparr>)) = 2
   \<and> calls (quantize_cli TENSORFLOW mock (tmp_dir ''resnet_v1_50'' ''saved_model.pt'')
      ((invocation ''resnet_v1_50'')\<lparr>raw_max_trials := Some (Number (- 1) 0)\<rparr>)) = []
   \<and> exit_code (quantize_cli TENSORFLOW mock (tmp_dir ''resnet_v1_50'' ''saved_model.pt'')
      ((invocation ''resnet_v1_50'')\<lparr>raw_timeout := Some (Word ''foo'')\<rparr>)) = 2
   \<and> calls (quantize_cli TENSORFLOW mock (tmp_dir ''resnet_v1_50'' ''saved_model.pt'')
      ((invocation ''resnet_v1_50'')\<lparr>raw_timeout := Some (Word ''foo'')\<rparr>)) = []
   \<and> exit_code (quantize_cli TENSORFLOW mock (tmp_dir ''resnet_v1_50'' ''saved_model.pt'')
      ((invocation ''resnet_v1_50'')\<lparr>raw_accuracy_criterion := Some (Number 13 1)\<rparr>)) = 2
   \<and> calls (quantize_cli TENSORFLOW mock (tmp_dir ''resnet_v1_50'' ''saved_model.pt'')
      ((invocation ''resnet_v1_50'')\<lparr>raw_accuracy_criterion := Some (Number 13 1)\<rparr>)) = []"
proof -
  let ?fs = "tmp_dir ''resnet_v1_50'' ''saved_model.pt''"
  let ?r = "invocation ''resnet_v1_50''"
  have 1: "raw_max_trials (?r\<lparr>raw_max_trials := Some (Number (- 1) 0)\<rparr>) = Some (Number (- 1) 0)
      \<and> (\<exists>m. Number (- 1) 0 = Number m 0 \<and> m \<le> 0)" by simp
  have 2: "raw_timeout (?r\<lparr>raw_timeout := Some (Word ''foo'')\<rparr>) = Some (Word ''foo'')
      \<and> (\<exists>w. Word ''foo'' = Word w)" by simp
  have 3: "raw_accuracy_criterion (?r\<lparr>raw_accuracy_criterion := Some (Number 13 1)\<rparr>)
        = Some (Number 13 1)
      \<and> (\<exists>m e. Number 13 1 = Number m e \<and> (m < 0 \<or> 10 ^ e < m))" by simp
  from invalid_numeric_flags_rejected [of "?r\<lparr>raw_max_trials := Some (Number (- 1) 0)\<rparr>"
      TENSORFLOW mock ?fs] 1
  have a: "exit_code (quantize_cli TENSORFLOW mock ?fs
        (?r\<lparr>raw_max_trials := Some (Number (- 1) 0)\<rparr>)) = 2
      \<and> calls (quantize_cli TENSORFLOW mock ?fs
        (?r\<lparr>raw_max_trials := Some (Number (- 1) 0)\<rparr>)) = []" by blast
  from invalid_numeric_flags_rejected [of "?r\<lparr>raw_timeout := Some (Word ''foo'')\<rparr>"
      TENSORFLOW mock ?fs] 2
  have b: "exit_code (quantize_cli TENSORFLOW mock ?fs
        (?r\<lparr>raw_timeout := Some (Word ''foo'')\<rparr>)) = 2
      \<and> calls (quantize_cli TENSORFLOW mock ?fs
        (?r\<lparr>raw_timeout := Some (Word ''foo'')\<rparr>)) = []" by blast
  from invalid_numeric_flags_rejected [of "?r\<lparr>raw_accuracy_criterion := Some (Number 13 1)\<rparr>"
      TENSORFLOW mock ?fs] 3
  have c: "exit_code (quantize_cli TENSORFLOW mock ?fs
        (?r\<lparr>raw_accuracy_criterion := Some (Number 13 1)\<rparr>)) = 2
      \<and> calls (quantize_cli TENSORFLOW mock ?fs
        (?r\<lparr>raw_accuracy_criterion := Some (Number 13 1)\<rparr>)) = []" by blast
  from a b c show ?thesis by blast
qed

end
